theory Spec2Isabelle
  imports Main
begin

section \<open>JavaScript values\<close>

text \<open>
  The values the library inspects at run time (error payloads, arguments of a REST
  invocation, query parameters) are data as \<open>JSON.parse\<close> delivers it, plus
  \<open>undefined\<close>. The library never computes with a number: it tests whether it is
  truthy and it prints it with \<open>String\<close>. A number is therefore given by the string
  that \<open>String\<close> prints for it, which determines it up to the sign of zero:
  \<open>JNum ''123''\<close>, \<open>JNum ''0.5''\<close>, \<open>JNum ''1e+21''\<close>, \<open>JNum ''NaN''\<close>.
  An object is the list of its own enumerable properties in property order.
  \<open>JBuiltin n\<close> is the built-in function named \<open>n\<close>: it is only ever produced
  by a property lookup that falls through to \<open>Object.prototype\<close>.
  A string is a list of 8-bit characters, read as code units below 256.
\<close>

datatype jsval =
    JUndefined
  | JNull
  | JBool bool
  | JNum string
  | JStr string
  | JArr "jsval list"
  | JObj "(string \<times> jsval) list"
  | JBuiltin string

text \<open>An object used as a dictionary (\<open>Record<string, T>\<close>).\<close>

type_synonym props = "string \<rightharpoonup> jsval"

text \<open>
  What a \<open>throw\<close> (or a rejected promise) carries. The \<open>catch\<close> blocks read
  \<open>response\<close>, \<open>code\<close> and \<open>message\<close> from the caught value, whatever it is, and
  test it with \<open>instanceof Error\<close>; \<open>failure\<close> holds what these three reads give
  (\<open>JUndefined\<close> for a property that is not there) and the outcome of the test. An
  \<open>Error\<close> made by \<open>new Error(m)\<close> has only the message; a thrown primitive other
  than \<open>null\<close> and \<open>undefined\<close> has none of the three. \<open>Nullish\<close> is a thrown
  \<open>null\<close> or \<open>undefined\<close>, on which every property read raises a \<open>TypeError\<close>.
\<close>

record failure =
  response :: jsval
  code :: jsval
  errorMessage :: jsval
  instanceOfError :: bool

datatype thrown = Nullish | Thrown failure

definition newError :: "string \<Rightarrow> thrown" where
  "newError m = Thrown \<lparr>response = JUndefined, code = JUndefined, errorMessage = JStr m,
                      instanceOfError = True\<rparr>"

definition typeError :: "string \<Rightarrow> thrown" where
  "typeError m = newError m"

subsection \<open>Truthiness, \<open>||\<close> and \<open>String\<close>\<close>

fun truthy :: "jsval \<Rightarrow> bool" where
  "truthy JUndefined = False"
| "truthy JNull = False"
| "truthy (JBool b) = b"
| "truthy (JNum n) = (n \<noteq> ''0'' \<and> n \<noteq> ''NaN'')"
| "truthy (JStr s) = (s \<noteq> [])"
| "truthy (JArr xs) = True"
| "truthy (JObj kvs) = True"
| "truthy (JBuiltin n) = True"

definition jsOr :: "jsval \<Rightarrow> jsval \<Rightarrow> jsval" where
  "jsOr a b = (if truthy a then a else b)"

text \<open>
  \<open>String(v)\<close>, and \<open>Array.prototype.join\<close>, which prints \<open>null\<close> and
  \<open>undefined\<close> elements as the empty string. An object is printed by
  \<open>Object.prototype.toString\<close> unless it has an own property \<open>toString\<close>; such a
  property of parsed data is not callable, and the conversion then ends in a
  \<open>TypeError\<close>.
\<close>

fun jsString :: "jsval \<Rightarrow> thrown + string"
  and joinElements :: "string \<Rightarrow> jsval list \<Rightarrow> thrown + string"
  and elementString :: "jsval \<Rightarrow> thrown + string" where
  "jsString JUndefined = Inr ''undefined''"
| "jsString JNull = Inr ''null''"
| "jsString (JBool b) = Inr (if b then ''true'' else ''false'')"
| "jsString (JNum n) = Inr n"
| "jsString (JStr s) = Inr s"
| "jsString (JArr xs) = joinElements '','' xs"
| "jsString (JObj kvs) =
     (if ''toString'' \<in> fst ` set kvs
      then Inl (typeError ''Cannot convert object to primitive value'')
      else Inr ''[object Object]'')"
| "jsString (JBuiltin n) = Inr (''function '' @ n @ ''() { [native code] }'')"
| "joinElements sep [] = Inr []"
| "joinElements sep [x] = elementString x"
| "joinElements sep (x # y # ys) =
     (case elementString x of
        Inl t \<Rightarrow> Inl t
      | Inr s \<Rightarrow>
          (case joinElements sep (y # ys) of
             Inl t \<Rightarrow> Inl t
           | Inr r \<Rightarrow> Inr (s @ sep @ r)))"
| "elementString JUndefined = Inr []"
| "elementString JNull = Inr []"
| "elementString v = jsString v"

text \<open>\<open>typeof v === 'object' && v !== null\<close>, with \<open>Object.values(v)\<close>.\<close>

fun objectValues :: "jsval \<Rightarrow> jsval list option" where
  "objectValues (JObj kvs) = Some (map snd kvs)"
| "objectValues (JArr xs) = Some xs"
| "objectValues v = None"

text \<open>Reading a property of a dictionary: an absent key reads as \<open>undefined\<close>.\<close>

definition getProp :: "props \<Rightarrow> string \<Rightarrow> jsval" where
  "getProp obj k = (case obj k of Some v \<Rightarrow> v | None \<Rightarrow> JUndefined)"

text \<open>\<open>...x\<close> inside an object literal: nothing for an absent \<open>x\<close>.\<close>

definition spread :: "('k \<rightharpoonup> 'v) option \<Rightarrow> ('k \<rightharpoonup> 'v)" where
  "spread x = (case x of None \<Rightarrow> Map.empty | Some p \<Rightarrow> p)"

text \<open>
  The properties every object literal inherits from \<open>Object.prototype\<close>; each is a
  function, except \<open>__proto__\<close>, which reads as the prototype object itself.
\<close>

definition objectPrototypeMember :: "string \<Rightarrow> jsval option" where
  "objectPrototypeMember k =
     (if k = ''constructor'' then Some (JBuiltin ''Object'')
      else if k = ''__proto__'' then Some (JObj [])
      else if k \<in> set [''hasOwnProperty'', ''isPrototypeOf'', ''propertyIsEnumerable'',
                        ''toLocaleString'', ''toString'', ''valueOf'',
                        ''__defineGetter__'', ''__defineSetter__'',
                        ''__lookupGetter__'', ''__lookupSetter__'']
      then Some (JBuiltin k)
      else None)"

text \<open>\<open>literal[k]\<close> on an object literal given by its own properties.\<close>

definition member :: "(string \<times> jsval) list \<Rightarrow> string \<Rightarrow> jsval" where
  "member literal k =
     (case map_of literal k of
        Some v \<Rightarrow> v
      | None \<Rightarrow> (case objectPrototypeMember k of Some b \<Rightarrow> b | None \<Rightarrow> JUndefined))"

section \<open>Error normalizer (\<open>src/utils/error-handler.ts\<close>)\<close>

text \<open>
  \<open>IErrors\<close>: \<open>extensions\<close> is declared required, but the errors come from a
  server's payload, so the model keeps the case that it is missing (\<open>None\<close>).
  An absent outer \<open>message\<close> is \<open>JUndefined\<close>.
\<close>

record ierrors =
  extensions :: "props option"
  message :: jsval

definition formatErrorCode :: "jsval \<Rightarrow> props option \<Rightarrow> jsval \<Rightarrow> ierrors" where
  "formatErrorCode c ext m =
     \<lparr>extensions = Some ([''code'' \<mapsto> c] ++ spread ext), message = m\<rparr>"

definition formatErrorMessage :: "ierrors \<Rightarrow> ierrors" where
  "formatErrorMessage e =
     \<lparr>extensions = Some ([''message'' \<mapsto> message e] ++ spread (extensions e)),
      message = JUndefined\<rparr>"

definition defaultMessages :: "jsval \<Rightarrow> jsval \<Rightarrow> (string \<times> jsval) list" where
  "defaultMessages m processedMessage =
     [(''401'', m), (''404'', m), (''500'', m), (''422'', processedMessage),
      (''BAD_USER_INPUT'', JStr ''Input is not valid''),
      (''INTERNAL_SERVER_ERROR'', JStr ''Internal Server Error'')]"

definition formatErrorResponse :: "ierrors \<Rightarrow> thrown + ierrors" where
  "formatErrorResponse e =
     (case extensions e of
        None \<Rightarrow> Inl (typeError ''Cannot destructure property 'code' of 'undefined' as it is undefined.'')
      | Some ext \<Rightarrow>
          let c = getProp ext ''code'';
              m = (if getProp ext ''message'' = JUndefined then JStr [] else getProp ext ''message'');
              processed =
                (case (if c = JStr ''422'' then objectValues m else None) of
                   Some vs \<Rightarrow> map_sum id JStr (joinElements '', '' vs)
                 | None \<Rightarrow> Inr m)
          in case processed of
               Inl t \<Rightarrow> Inl t
             | Inr processedMessage \<Rightarrow>
                 if truthy c then
                   (case jsString c of
                      Inl t \<Rightarrow> Inl t
                    | Inr k \<Rightarrow>
                        Inr \<lparr>extensions = Some
                               [''code'' \<mapsto> c,
                                ''message'' \<mapsto>
                                  jsOr (member (defaultMessages m processedMessage) k)
                                       (JStr ''Unknown error'')],
                             message = JUndefined\<rparr>)
                 else
                   Inr \<lparr>extensions = Some [''code'' \<mapsto> c, ''message'' \<mapsto> JStr []],
                        message = JUndefined\<rparr>)"

text \<open>
  \<open>compose\<close> reduces the list of the three formatters over the error; the first one
  is called on a record built from \<open>acc.extensions\<close>, the others on \<open>acc\<close>.
\<close>

datatype formatter = FormatErrorCode | FormatErrorMessage | FormatErrorResponse

fun composeStep :: "ierrors \<Rightarrow> formatter \<Rightarrow> thrown + ierrors" where
  "composeStep acc FormatErrorCode =
     (case extensions acc of
        None \<Rightarrow> Inl (typeError ''Cannot read properties of undefined (reading 'code')'')
      | Some ext \<Rightarrow>
          Inr (formatErrorCode (jsOr (getProp ext ''code'') (JStr []))
                               (Some ext)
                               (jsOr (getProp ext ''message'') (JStr []))))"
| "composeStep acc FormatErrorMessage = Inr (formatErrorMessage acc)"
| "composeStep acc FormatErrorResponse = formatErrorResponse acc"

fun reduce :: "('a \<Rightarrow> 'b \<Rightarrow> thrown + 'a) \<Rightarrow> 'b list \<Rightarrow> 'a \<Rightarrow> thrown + 'a" where
  "reduce f [] acc = Inr acc"
| "reduce f (x # xs) acc = (case f acc x of Inl t \<Rightarrow> Inl t | Inr acc' \<Rightarrow> reduce f xs acc')"

definition compose :: "ierrors \<Rightarrow> thrown + ierrors" where
  "compose error =
     reduce composeStep [FormatErrorCode, FormatErrorMessage, FormatErrorResponse] error"

text \<open>
  \<open>makeErrorResponse({code, message})\<close>: the message is stored as it is, the code is
  converted by \<open>String\<close>, which throws on a value it cannot convert.
\<close>

definition makeErrorResponse :: "jsval \<Rightarrow> jsval \<Rightarrow> thrown + ierrors" where
  "makeErrorResponse c m =
     (case jsString c of
        Inl t \<Rightarrow> Inl t
      | Inr s \<Rightarrow>
          Inr \<lparr>extensions = Some [''message'' \<mapsto> m, ''error'' \<mapsto> JBool True,
                                  ''code'' \<mapsto> JStr s],
               message = JStr ''Internal Server Error''\<rparr>)"

text \<open>The shape \<open>{extensions: {code, message}}\<close> and nothing else.\<close>

definition normalized :: "jsval \<Rightarrow> jsval \<Rightarrow> ierrors" where
  "normalized c m =
     \<lparr>extensions = Some [''code'' \<mapsto> c, ''message'' \<mapsto> m], message = JUndefined\<rparr>"

text \<open>The keys of the table \<open>defaultMessages\<close>.\<close>

definition knownCodes :: "string list" where
  "knownCodes = map fst (defaultMessages JUndefined JUndefined)"

section \<open>Request execution engine (\<open>src/core/http-client.ts\<close>)\<close>

text \<open>
  \<open>AxiosRequestConfig\<close>, with the fields the library sets. \<open>reqData\<close> is the
  field \<open>data\<close> and \<open>httpMethod\<close> the field \<open>method\<close>. An absent \<open>url\<close> or \<open>timeout\<close> is \<open>None\<close>.
\<close>

record requestConfig =
  url :: "string option"
  httpMethod :: string
  reqData :: jsval
  headers :: "string \<rightharpoonup> string"
  timeout :: "int option"

text \<open>
  The transport's response: \<open>result.data\<close> is the payload \<open>{data, errors?}\<close>, or
  \<open>None\<close> when it is falsy. \<open>bodyErrors\<close> is \<open>Some\<close> list when \<open>errors\<close> is an
  array, \<open>None\<close> when it is absent, falsy or not an array; a payload that is not an
  object reads as one with neither key.
\<close>

record responseBody =
  bodyData :: jsval
  bodyErrors :: "ierrors list option"

record axiosResponse =
  respData :: "responseBody option"
  respStatus :: int

text \<open>
  The optional hooks, \<open>interceptors.request\<close> and \<open>interceptors.response\<close>. Awaiting a
  hook either throws (\<open>Inl\<close>) or yields its value; the request hook may yield
  \<open>null\<close> or \<open>undefined\<close> (\<open>None\<close>) in place of a configuration.
\<close>

record interceptors =
  onRequest :: "(requestConfig \<Rightarrow> thrown + requestConfig option) option"
  onResponse :: "(axiosResponse \<Rightarrow> thrown + jsval) option"

text \<open>\<open>FetcherResponse\<close>; an absent \<open>errors\<close> is \<open>None\<close>.\<close>

record fetcherResponse =
  data :: jsval
  errors :: "ierrors list option"

text \<open>
  What the promise of \<open>makeRequest\<close> resolves to: the envelope it built, or the
  value of the response hook when one is configured.
\<close>

datatype reply = Built fetcherResponse | Hooked jsval

text \<open>A string read in a condition: absent and empty are both falsy.\<close>

fun truthyString :: "string option \<Rightarrow> string option" where
  "truthyString None = None"
| "truthyString (Some s) = (if s = [] then None else Some s)"

text \<open>
  \<open>a?.k\<close> for the keys the handler reads (\<open>status\<close>, \<open>data\<close>, \<open>message\<close>, \<open>error\<close>),
  which no prototype of a primitive, of an array or of a function defines: \<open>undefined\<close>
  for a nullish \<open>a\<close>, the own or inherited property for an object, \<open>undefined\<close> for
  every other value.
\<close>

fun optionalMember :: "jsval \<Rightarrow> string \<Rightarrow> jsval" where
  "optionalMember (JObj kvs) k = member kvs k"
| "optionalMember v k = JUndefined"

fun handleRequestError :: "thrown \<Rightarrow> thrown + fetcherResponse" where
  "handleRequestError Nullish =
     Inl (typeError ''Cannot read properties of undefined (reading 'response')'')"
| "handleRequestError (Thrown error) =
     (let responseStatus = optionalMember (response error) ''status'';
          st = (if responseStatus = JUndefined \<or> responseStatus = JNull
                then (if code error = JStr ''ECONNABORTED'' then JNum ''408'' else JNum ''500'')
                else responseStatus);
          payload = optionalMember (response error) ''data'';
          msg =
            (if truthy (optionalMember payload ''message'') then optionalMember payload ''message''
             else if truthy (optionalMember payload ''error'') then optionalMember payload ''error''
             else if code error = JStr ''ECONNABORTED'' then JStr ''Request timeout''
             else if code error = JStr ''ENOTFOUND'' \<or> code error = JStr ''ECONNREFUSED''
             then JStr ''Network connection failed''
             else jsOr (errorMessage error) (JStr ''Network request failed''))
      in case makeErrorResponse st msg of
           Inl t \<Rightarrow> Inl t
         | Inr e \<Rightarrow> Inr \<lparr>data = JNull, errors = Some [e]\<rparr>)"

text \<open>\<open>errors.map(f)\<close> with an \<open>f\<close> that may throw.\<close>

fun mapThrowing :: "('a \<Rightarrow> thrown + 'b) \<Rightarrow> 'a list \<Rightarrow> thrown + 'b list" where
  "mapThrowing f [] = Inr []"
| "mapThrowing f (x # xs) =
     (case f x of
        Inl t \<Rightarrow> Inl t
      | Inr y \<Rightarrow> (case mapThrowing f xs of Inl t \<Rightarrow> Inl t | Inr ys \<Rightarrow> Inr (y # ys)))"

text \<open>
  The body of the \<open>try\<close> block of \<open>makeRequest\<close>; \<open>transport\<close> is the call
  \<open>axios(finalConfig)\<close>.
\<close>

definition tryRequest ::
  "interceptors \<Rightarrow> (requestConfig \<Rightarrow> thrown + axiosResponse) \<Rightarrow> requestConfig \<Rightarrow> thrown + reply" where
  "tryRequest ic transport config =
     (if truthyString (url config) = None then Inl (newError ''Request URL is required'')
      else
        case (case onRequest ic of Some hook \<Rightarrow> hook config | None \<Rightarrow> Inr (Some config)) of
          Inl t \<Rightarrow> Inl t
        | Inr None \<Rightarrow> Inl (typeError ''Cannot read properties of undefined (reading 'timeout')'')
        | Inr (Some hooked) \<Rightarrow>
            let finalConfig =
                  (if timeout hooked = None \<or> timeout hooked = Some 0
                   then hooked\<lparr>timeout := Some 30000\<rparr> else hooked)
            in case transport finalConfig of
                 Inl t \<Rightarrow> Inl t
               | Inr result \<Rightarrow>
                   let responseData = (case respData result of None \<Rightarrow> JUndefined | Some b \<Rightarrow> bodyData b);
                       errs = (case respData result of None \<Rightarrow> None | Some b \<Rightarrow> bodyErrors b);
                       response = \<lparr>data = (if responseData = JUndefined \<or> responseData = JNull
                                            then JNull else responseData),
                                   errors = None\<rparr>;
                       withErrors =
                         (case errs of
                            Some (e # es) \<Rightarrow>
                              (case mapThrowing compose (e # es) of
                                 Inl t \<Rightarrow> Inl t
                               | Inr normalizedErrors \<Rightarrow> Inr (response\<lparr>errors := Some normalizedErrors\<rparr>))
                          | _ \<Rightarrow> Inr response)
                   in case withErrors of
                        Inl t \<Rightarrow> Inl t
                      | Inr response' \<Rightarrow>
                          (case onResponse ic of
                             Some hook \<Rightarrow> map_sum id Hooked (hook result)
                           | None \<Rightarrow> Inr (Built response')))"

text \<open>
  \<open>makeRequest\<close>: the \<open>try\<close> block, and \<open>handleRequestError\<close> on whatever it throws.
  \<open>Inl\<close> is a rejected promise, \<open>Inr\<close> a resolved one.
\<close>

definition makeRequest ::
  "interceptors \<Rightarrow> (requestConfig \<Rightarrow> thrown + axiosResponse) \<Rightarrow> requestConfig \<Rightarrow> thrown + reply" where
  "makeRequest ic transport config =
     (case tryRequest ic transport config of
        Inl err \<Rightarrow> map_sum id Built (handleRequestError err)
      | Inr r \<Rightarrow> Inr r)"

text \<open>
  The claim's wording of the status and the message of a failure, to be compared with
  \<open>handleRequestError\<close>: the first entry of a priority list that is there, where a
  value counts as there when it is truthy (a string, when it is not empty).
\<close>

fun firstPresent :: "jsval list \<Rightarrow> jsval \<Rightarrow> jsval" where
  "firstPresent [] fallback = fallback"
| "firstPresent (x # xs) fallback = (if truthy x then x else firstPresent xs fallback)"

definition isTimeout :: "failure \<Rightarrow> bool" where
  "isTimeout error = (code error = JStr ''ECONNABORTED'')"

definition statusBySpec :: "failure \<Rightarrow> jsval" where
  "statusBySpec error =
     (if optionalMember (response error) ''status'' \<notin> {JUndefined, JNull}
      then optionalMember (response error) ''status''
      else if isTimeout error then JNum ''408'' else JNum ''500'')"

definition messageBySpec :: "failure \<Rightarrow> jsval" where
  "messageBySpec error =
     firstPresent
       [optionalMember (optionalMember (response error) ''data'') ''message'',
        optionalMember (optionalMember (response error) ''data'') ''error'',
        if isTimeout error then JStr ''Request timeout'' else JUndefined,
        if code error \<in> {JStr ''ENOTFOUND'', JStr ''ECONNREFUSED''}
        then JStr ''Network connection failed'' else JUndefined,
        errorMessage error]
       (JStr ''Network request failed'')"

section \<open>Strings\<close>

text \<open>
  \<open>toLowerCase\<close> on code units below 256: the ASCII capitals and the Latin-1
  capitals map to their small letters. \<open>toUpperCase\<close> is only applied to a key that
  \<open>isHttpMethod\<close> accepts, which consists of ASCII letters; it is modelled on ASCII.
\<close>

definition lowerChar :: "char \<Rightarrow> char" where
  "lowerChar c =
     (let n = (of_char c :: nat)
      in if (65 \<le> n \<and> n \<le> 90) \<or> (192 \<le> n \<and> n \<le> 222 \<and> n \<noteq> 215)
         then char_of (n + 32) else c)"

definition upperChar :: "char \<Rightarrow> char" where
  "upperChar c =
     (let n = (of_char c :: nat)
      in if 97 \<le> n \<and> n \<le> 122 then char_of (n - 32) else c)"

definition toLowerCase :: "string \<Rightarrow> string" where
  "toLowerCase s = map lowerChar s"

definition toUpperCase :: "string \<Rightarrow> string" where
  "toUpperCase s = map upperChar s"

text \<open>\<open>trim\<close>: the white space and line terminators below 256.\<close>

definition isSpace :: "char \<Rightarrow> bool" where
  "isSpace c = ((of_char c :: nat) \<in> {9, 10, 11, 12, 13, 32, 160})"

definition trim :: "string \<Rightarrow> string" where
  "trim s = rev (dropWhile isSpace (rev (dropWhile isSpace s)))"

text \<open>\<open>Array.prototype.join\<close> on an array of strings.\<close>

fun joinWith :: "string \<Rightarrow> string list \<Rightarrow> string" where
  "joinWith sep [] = []"
| "joinWith sep [x] = x"
| "joinWith sep (x # y # ys) = x @ sep @ joinWith sep (y # ys)"

definition doubleQuote :: string where
  "doubleQuote = [CHR 0x22]"

text \<open>
  \<open>error instanceof Error ? error.message : 'Unknown error'\<close> in a \<open>catch\<close>, placed
  in a template string, which converts it by \<open>String\<close>.
\<close>

fun caughtMessage :: "thrown \<Rightarrow> thrown + string" where
  "caughtMessage Nullish = Inr ''Unknown error''"
| "caughtMessage (Thrown error) =
     (if instanceOfError error then jsString (errorMessage error) else Inr ''Unknown error'')"

section \<open>URL builder and validators (\<open>src/utils\<close>)\<close>

text \<open>
  The platform's \<open>URL\<close> class is not part of the repository and is a parameter:
  \<open>parseUrl input base\<close> is \<open>new URL(input, base)\<close>, \<open>None\<close> when it throws, and
  the URL object is represented by its string; \<open>appendParam\<close> is
  \<open>url.searchParams.append\<close>.
\<close>

record urlPlatform =
  parseUrl :: "string \<Rightarrow> string option \<Rightarrow> string option"
  appendParam :: "string \<Rightarrow> string \<Rightarrow> string \<Rightarrow> string"

fun appendQuery :: "urlPlatform \<Rightarrow> string \<Rightarrow> (string \<times> jsval) list \<Rightarrow> thrown + string" where
  "appendQuery plat u [] = Inr u"
| "appendQuery plat u ((k, v) # entries) =
     (if v \<noteq> JUndefined \<and> v \<noteq> JNull
      then (case jsString v of
              Inl t \<Rightarrow> Inl t
            | Inr s \<Rightarrow> appendQuery plat (appendParam plat u k s) entries)
      else appendQuery plat u entries)"

definition build ::
  "urlPlatform \<Rightarrow> string \<Rightarrow> string list \<Rightarrow> (string \<times> jsval) list option \<Rightarrow> thrown + string" where
  "build plat base segs query =
     (if base = [] then Inl (newError ''Base URL must be a non-empty string'')
      else
        case (case parseUrl plat (joinWith ''/'' segs) (Some base) of
                None \<Rightarrow> Inl (typeError ''Invalid URL'')
              | Some u \<Rightarrow> appendQuery plat u (case query of None \<Rightarrow> [] | Some q \<Rightarrow> q)) of
          Inl error \<Rightarrow>
            (case caughtMessage error of
               Inl t \<Rightarrow> Inl t
             | Inr m \<Rightarrow> Inl (newError (''Invalid URL construction: '' @ m)))
        | Inr u \<Rightarrow> Inr u)"

definition validateUrl :: "urlPlatform \<Rightarrow> string \<Rightarrow> thrown + unit" where
  "validateUrl plat u =
     (case parseUrl plat u None of
        None \<Rightarrow> Inl (newError (''Invalid URL format: '' @ u))
      | Some _ \<Rightarrow> Inr ())"

text \<open>
  The argument of \<open>headers(...)\<close> is \<open>Some\<close> dictionary when it is a plain object and
  \<open>None\<close> otherwise (\<open>null\<close>, \<open>undefined\<close>, a primitive, an array).
\<close>

definition validateHeaders :: "(string \<rightharpoonup> string) option \<Rightarrow> thrown + unit" where
  "validateHeaders hs =
     (case hs of None \<Rightarrow> Inl (newError ''Headers must be a valid object'') | Some _ \<Rightarrow> Inr ())"

definition validateFields :: "jsval \<Rightarrow> thrown + unit" where
  "validateFields selectedFields =
     (case selectedFields of
        JStr s \<Rightarrow> if trim s = [] then Inl (newError ''Field selection must be a non-empty string'')
                  else Inr ()
      | _ \<Rightarrow> Inl (newError ''Field selection must be a non-empty string''))"

fun isPlainObject :: "jsval \<Rightarrow> bool" where
  "isPlainObject (JObj kvs) = True"
| "isPlainObject v = False"

definition validateGraphQLArgs :: "jsval \<Rightarrow> thrown + unit" where
  "validateGraphQLArgs args =
     (if truthy args \<and> \<not> isPlainObject args
      then Inl (newError ''GraphQL arguments must be an object'')
      else Inr ())"

section \<open>The store of chain state\<close>

text \<open>
  The proxies close over arrays and objects, which JavaScript shares by reference:
  \<open>createProxy(segments, {...ctx, base})\<close> hands the same \<open>segments\<close> array and the same
  \<open>ctx.headers\<close> object to the new proxy. The store holds these objects; an address is
  an index, and allocation appends.
\<close>

type_synonym addr = nat

datatype cell =
    Segments "string list"
  | HeaderObj "string \<rightharpoonup> string"
  | Context "string option" "addr option"

type_synonym heap = "cell list"

definition alloc :: "heap \<Rightarrow> cell \<Rightarrow> heap \<times> addr" where
  "alloc h c = (h @ [c], length h)"

definition cellAt :: "heap \<Rightarrow> addr \<Rightarrow> cell option" where
  "cellAt h a = (if a < length h then Some (h ! a) else None)"

definition readSegments :: "heap \<Rightarrow> addr \<Rightarrow> string list" where
  "readSegments h a = (case cellAt h a of Some (Segments s) \<Rightarrow> s | _ \<Rightarrow> [])"

text \<open>\<open>ctx.base\<close> and \<open>ctx.headers\<close> of the context object at an address.\<close>

definition readBase :: "heap \<Rightarrow> addr \<Rightarrow> string option" where
  "readBase h a = (case cellAt h a of Some (Context b hs) \<Rightarrow> b | _ \<Rightarrow> None)"

definition readHeadersRef :: "heap \<Rightarrow> addr \<Rightarrow> addr option" where
  "readHeadersRef h a = (case cellAt h a of Some (Context b hs) \<Rightarrow> hs | _ \<Rightarrow> None)"

definition readHeaders :: "heap \<Rightarrow> addr \<Rightarrow> (string \<rightharpoonup> string) option" where
  "readHeaders h a =
     (case readHeadersRef h a of
        None \<Rightarrow> None
      | Some r \<Rightarrow> (case cellAt h r of Some (HeaderObj m) \<Rightarrow> Some m | _ \<Rightarrow> None))"

section \<open>REST proxy (\<open>src/proxies/rest-proxy.ts\<close>)\<close>

text \<open>
  The factory holds the HTTP client (its \<open>makeRequest\<close>), the instance's base URL and
  its default headers.
\<close>

record factory =
  httpClient :: "requestConfig \<Rightarrow> thrown + reply"
  baseUrl :: string
  factoryHeaders :: "string \<rightharpoonup> string"

definition newFactory ::
  "interceptors \<Rightarrow> (requestConfig \<Rightarrow> thrown + axiosResponse) \<Rightarrow> string \<Rightarrow> (string \<rightharpoonup> string) \<Rightarrow> factory" where
  "newFactory ic transport b hs =
     \<lparr>httpClient = makeRequest ic transport, baseUrl = b, factoryHeaders = hs\<rparr>"

text \<open>A proxy made by \<open>createProxy(segments, ctx)\<close>: the two references it closes over.\<close>

record restProxy =
  segments :: addr
  ctx :: addr

text \<open>\<open>createProxy()\<close> with its default arguments \<open>[]\<close> and \<open>{}\<close>.\<close>

definition createRootProxy :: "heap \<Rightarrow> heap \<times> restProxy" where
  "createRootProxy h =
     (let (h1, s) = alloc h (Segments []);
          (h2, c) = alloc h1 (Context None None)
      in (h2, \<lparr>segments = s, ctx = c\<rparr>))"

definition HTTP_METHODS :: "string list" where
  "HTTP_METHODS = [''get'', ''post'', ''put'', ''patch'', ''delete'']"

definition isHttpMethod :: "string \<Rightarrow> bool" where
  "isHttpMethod m = (toLowerCase m \<in> set HTTP_METHODS)"

record restRequestOptions =
  optQuery :: "(string \<times> jsval) list option"
  optBody :: jsval
  optHeaders :: "(string \<rightharpoonup> string) option"

text \<open>
  What the \<open>get\<close> trap returns for a string key: the function for \<open>base\<close>, the
  function for \<open>headers\<close>, the terminal function of a verb (it closes over the key),
  or a new proxy.
\<close>

datatype restMember = BaseFn | HeadersFn | VerbFn string | PathProxy restProxy

definition restGet :: "heap \<Rightarrow> restProxy \<Rightarrow> string \<Rightarrow> heap \<times> restMember" where
  "restGet h p prop =
     (if prop = ''base'' then (h, BaseFn)
      else if prop = ''headers'' then (h, HeadersFn)
      else if isHttpMethod prop then (h, VerbFn prop)
      else
        let (h1, s) = alloc h (Segments (readSegments h (segments p) @ [prop]))
        in (h1, PathProxy \<lparr>segments = s, ctx = ctx p\<rparr>))"

text \<open>The function returned for \<open>base\<close>, called with \<open>newBase\<close>.\<close>

definition callBase :: "urlPlatform \<Rightarrow> heap \<Rightarrow> restProxy \<Rightarrow> string \<Rightarrow> thrown + heap \<times> restProxy" where
  "callBase plat h p newBase =
     (case validateUrl plat newBase of
        Inl t \<Rightarrow> Inl t
      | Inr _ \<Rightarrow>
          let (h1, c) = alloc h (Context (Some newBase) (readHeadersRef h (ctx p)))
          in Inr (h1, \<lparr>segments = segments p, ctx = c\<rparr>))"

text \<open>The function returned for \<open>headers\<close>, called with \<open>newHeaders\<close>.\<close>

definition callHeaders ::
  "heap \<Rightarrow> restProxy \<Rightarrow> (string \<rightharpoonup> string) option \<Rightarrow> thrown + heap \<times> restProxy" where
  "callHeaders h p newHeaders =
     (case validateHeaders newHeaders of
        Inl t \<Rightarrow> Inl t
      | Inr _ \<Rightarrow>
          let (h1, r) = alloc h (HeaderObj (spread (readHeaders h (ctx p)) ++ spread newHeaders));
              (h2, c) = alloc h1 (Context (readBase h (ctx p)) (Some r))
          in Inr (h2, \<lparr>segments = segments p, ctx = c\<rparr>))"

text \<open>The \<open>apply\<close> trap: the proxy called with arguments.\<close>

definition restApply :: "heap \<Rightarrow> restProxy \<Rightarrow> jsval list \<Rightarrow> thrown + heap \<times> restProxy" where
  "restApply h p args =
     (case mapThrowing jsString (filter (\<lambda>arg. arg \<noteq> JNull \<and> arg \<noteq> JUndefined) args) of
        Inl t \<Rightarrow> Inl t
      | Inr validArgs \<Rightarrow>
          let (h1, s) = alloc h (Segments (readSegments h (segments p) @ validArgs))
          in Inr (h1, \<lparr>segments = s, ctx = ctx p\<rparr>))"

text \<open>
  The terminal function of a verb, called with \<open>options\<close>: the descriptor it hands to
  \<open>makeRequest\<close>, and the call.
\<close>

definition verbRequest ::
  "urlPlatform \<Rightarrow> factory \<Rightarrow> heap \<Rightarrow> restProxy \<Rightarrow> string \<Rightarrow> restRequestOptions \<Rightarrow> thrown + requestConfig" where
  "verbRequest plat f h p prop options =
     (case build plat (case readBase h (ctx p) of Some b \<Rightarrow> b | None \<Rightarrow> baseUrl f)
                 (readSegments h (segments p)) (optQuery options) of
        Inl t \<Rightarrow> Inl t
      | Inr u \<Rightarrow>
          Inr \<lparr>url = Some u, httpMethod = toUpperCase prop, reqData = optBody options,
               headers = factoryHeaders f ++ spread (readHeaders h (ctx p)) ++
                         spread (optHeaders options),
               timeout = None\<rparr>)"

definition callVerb ::
  "urlPlatform \<Rightarrow> factory \<Rightarrow> heap \<Rightarrow> restProxy \<Rightarrow> string \<Rightarrow> restRequestOptions \<Rightarrow> thrown + reply" where
  "callVerb plat f h p prop options =
     (case verbRequest plat f h p prop options of
        Inl t \<Rightarrow> Inl t
      | Inr config \<Rightarrow> httpClient f config)"

subsection \<open>Chains\<close>

text \<open>
  A chain is a sequence of steps that each yield a proxy: a property access, an
  invocation, \<open>.base(u)\<close> and \<open>.headers(hs)\<close>. An access whose key yields a function is
  not such a step (\<open>None\<close>).
\<close>

datatype chainStep =
    Access string
  | Invoke "jsval list"
  | SetBase string
  | SetHeaders "(string \<rightharpoonup> string) option"

fun restStep ::
  "urlPlatform \<Rightarrow> heap \<Rightarrow> restProxy \<Rightarrow> chainStep \<Rightarrow> (thrown + heap \<times> restProxy) option" where
  "restStep plat h p (Access k) =
     (case restGet h p k of (h1, PathProxy q) \<Rightarrow> Some (Inr (h1, q)) | _ \<Rightarrow> None)"
| "restStep plat h p (Invoke args) = Some (restApply h p args)"
| "restStep plat h p (SetBase u) =
     (case restGet h p ''base'' of (h1, BaseFn) \<Rightarrow> Some (callBase plat h1 p u) | _ \<Rightarrow> None)"
| "restStep plat h p (SetHeaders hs) =
     (case restGet h p ''headers'' of (h1, HeadersFn) \<Rightarrow> Some (callHeaders h1 p hs) | _ \<Rightarrow> None)"

fun restChain ::
  "urlPlatform \<Rightarrow> heap \<Rightarrow> restProxy \<Rightarrow> chainStep list \<Rightarrow> (thrown + heap \<times> restProxy) option" where
  "restChain plat h p [] = Some (Inr (h, p))"
| "restChain plat h p (s # steps) =
     (case restStep plat h p s of
        None \<Rightarrow> None
      | Some (Inl t) \<Rightarrow> Some (Inl t)
      | Some (Inr (h1, q)) \<Rightarrow> restChain plat h1 q steps)"

text \<open>What a proxy sees in a store: its segments, its base and its context headers.\<close>

definition segmentsOf :: "heap \<Rightarrow> restProxy \<Rightarrow> string list" where
  "segmentsOf h p = readSegments h (segments p)"

definition baseOf :: "heap \<Rightarrow> restProxy \<Rightarrow> string option" where
  "baseOf h p = readBase h (ctx p)"

definition headersOf :: "heap \<Rightarrow> restProxy \<Rightarrow> (string \<rightharpoonup> string)" where
  "headersOf h p = spread (readHeaders h (ctx p))"

text \<open>
  A context address is valid in a store when it holds a context whose header reference,
  if any, holds a header object; a proxy is well formed when its references are valid.
\<close>

definition validContext :: "heap \<Rightarrow> addr \<Rightarrow> bool" where
  "validContext h a =
     (case cellAt h a of
        Some (Context b hs) \<Rightarrow>
          (case hs of
             None \<Rightarrow> True
           | Some r \<Rightarrow> (case cellAt h r of Some (HeaderObj m) \<Rightarrow> True | _ \<Rightarrow> False))
      | _ \<Rightarrow> False)"

definition wellFormed :: "heap \<Rightarrow> restProxy \<Rightarrow> bool" where
  "wellFormed h p =
     ((case cellAt h (segments p) of Some (Segments s) \<Rightarrow> True | _ \<Rightarrow> False) \<and>
      validContext h (ctx p))"

text \<open>
  The segments a step contributes, in the words of the specification: a property access
  its key, an invocation its arguments without \<open>null\<close> and \<open>undefined\<close>, as strings.
\<close>

fun stepSegments :: "chainStep \<Rightarrow> thrown + string list" where
  "stepSegments (Access k) = Inr [k]"
| "stepSegments (Invoke args) =
     mapThrowing jsString (filter (\<lambda>arg. arg \<noteq> JNull \<and> arg \<noteq> JUndefined) args)"
| "stepSegments (SetBase u) = Inr []"
| "stepSegments (SetHeaders hs) = Inr []"

fun chainSegments :: "chainStep list \<Rightarrow> string list" where
  "chainSegments [] = []"
| "chainSegments (s # steps) =
     (case stepSegments s of Inl t \<Rightarrow> [] | Inr xs \<Rightarrow> xs) @ chainSegments steps"

text \<open>
  A store extends another when the objects of the other are all there, unchanged.
  The view of a proxy is what a terminal call through it reads: its segments, its base
  and its context headers. \<open>stepView\<close> is the effect of a chain step on a view, in the
  words of the specification.
\<close>

definition extends :: "heap \<Rightarrow> heap \<Rightarrow> bool" where
  "extends h h' = (take (length h) h' = h)"

definition restView :: "heap \<Rightarrow> restProxy \<Rightarrow> string list \<times> string option \<times> (string \<rightharpoonup> string)" where
  "restView h p = (segmentsOf h p, baseOf h p, headersOf h p)"

fun stepView ::
  "chainStep \<Rightarrow> string list \<times> string option \<times> (string \<rightharpoonup> string) \<Rightarrow>
     string list \<times> string option \<times> (string \<rightharpoonup> string)" where
  "stepView s (segs, b, hs) =
     (case s of
        Access k \<Rightarrow> (segs @ [k], b, hs)
      | Invoke args \<Rightarrow> (segs @ (case stepSegments (Invoke args) of Inl t \<Rightarrow> [] | Inr xs \<Rightarrow> xs), b, hs)
      | SetBase u \<Rightarrow> (segs, Some u, hs)
      | SetHeaders new \<Rightarrow> (segs, b, hs ++ spread new))"

section \<open>GraphQL proxy (\<open>src/proxies/graphql-proxy.ts\<close>)\<close>

datatype operationType = Query | Mutation | Subscription

fun operationName :: "operationType \<Rightarrow> string" where
  "operationName Query = ''query''"
| "operationName Mutation = ''mutation''"
| "operationName Subscription = ''subscription''"

text \<open>\<open>isValidGraphQLOperation\<close>, with the operation type the string stands for.\<close>

definition isValidGraphQLOperation :: "string \<Rightarrow> operationType option" where
  "isValidGraphQLOperation s =
     (if s = ''query'' then Some Query
      else if s = ''mutation'' then Some Mutation
      else if s = ''subscription'' then Some Subscription
      else None)"

text \<open>The \<open>get\<close> trap of the entry point \<open>gql\<close>.\<close>

definition gqlGet :: "string \<Rightarrow> thrown + operationType" where
  "gqlGet operation =
     (case isValidGraphQLOperation (toLowerCase operation) of
        None \<Rightarrow>
          Inl (newError (''Invalid GraphQL operation '' @ doubleQuote @ operation @ doubleQuote @
                         ''. Valid operations: query, mutation, subscription''))
      | Some t \<Rightarrow> Inr t)"

text \<open>
  \<open>buildQuery\<close> (\<open>src/utils/build-query\<close>) is not among the sources and is a
  parameter: it takes the template parts and the arguments, and throws or returns
  \<open>{query, variables}\<close>.
\<close>

type_synonym graphQLArgs = "(string \<times> jsval) list"

record buildResult =
  query :: jsval
  variables :: jsval

type_synonym queryBuilder = "string list \<Rightarrow> graphQLArgs \<Rightarrow> thrown + buildResult"

text \<open>The template of \<open>buildGraphQLOperation\<close>.\<close>

definition templateParts :: "operationType \<Rightarrow> string \<Rightarrow> graphQLArgs \<Rightarrow> string \<Rightarrow> string list" where
  "templateParts operation field argsObj selection =
     (let cleanedSelection = trim selection;
          hasArgs = (length argsObj > 0);
          select = (if cleanedSelection \<noteq> [] then ''{ '' @ cleanedSelection @ '' }'' else [])
      in if hasArgs
         then [operationName operation @ '' { '' @ field @ '' ('', '') '' @ select @ '' }'']
         else [operationName operation @ '' { '' @ field @ '' '', '' '' @ select @ '' }''])"

definition isNonEmptyString :: "jsval \<Rightarrow> bool" where
  "isNonEmptyString v = (case v of JStr s \<Rightarrow> s \<noteq> [] | _ \<Rightarrow> False)"

definition buildGraphQLOperation ::
  "queryBuilder \<Rightarrow> operationType \<Rightarrow> string \<Rightarrow> graphQLArgs \<Rightarrow> string \<Rightarrow> thrown + buildResult" where
  "buildGraphQLOperation buildQuery operation field argsObj selection =
     (case (if field = [] then Inl (newError ''Field name must be a non-empty string'')
            else
              case buildQuery (templateParts operation field argsObj selection) argsObj of
                Inl t \<Rightarrow> Inl t
              | Inr result \<Rightarrow>
                  if \<not> isNonEmptyString (query result)
                  then Inl (newError ''Failed to generate valid GraphQL query'')
                  else Inr result) of
        Inl error \<Rightarrow>
          (case caughtMessage error of
             Inl t \<Rightarrow> Inl t
           | Inr m \<Rightarrow>
               Inl (newError (''Failed to build GraphQL '' @ operationName operation @
                              '' for field '' @ doubleQuote @ field @ doubleQuote @ '': '' @ m)))
      | Inr result \<Rightarrow> Inr result)"

text \<open>
  A query builder made by \<open>createQueryBuilder\<close>: what it closes over, with \<open>built\<close>,
  the operation built at creation with the empty selection.
\<close>

record graphQLQueryBuilder =
  operation :: operationType
  field :: string
  argsObj :: graphQLArgs
  builderCtx :: addr
  built :: buildResult

definition createQueryBuilder ::
  "queryBuilder \<Rightarrow> operationType \<Rightarrow> string \<Rightarrow> graphQLArgs \<Rightarrow> addr \<Rightarrow> thrown + graphQLQueryBuilder" where
  "createQueryBuilder buildQuery op fld args c =
     (case buildGraphQLOperation buildQuery op fld args [] of
        Inl t \<Rightarrow> Inl t
      | Inr b \<Rightarrow>
          Inr \<lparr>operation = op, field = fld, argsObj = args, builderCtx = c, built = b\<rparr>)"

text \<open>The \<open>get\<close> trap of the operation proxy: a field name yields a query builder.\<close>

definition operationGet ::
  "queryBuilder \<Rightarrow> operationType \<Rightarrow> addr \<Rightarrow> string \<Rightarrow> thrown + graphQLQueryBuilder" where
  "operationGet buildQuery op c fld = createQueryBuilder buildQuery op fld [] c"

text \<open>
  What the \<open>get\<close> trap of a query builder returns for a string key: one of five
  functions, or it throws.
\<close>

datatype builderMember = SelectFn | ExecuteFn | ThenFn | BuilderBaseFn | BuilderHeadersFn

definition builderGet :: "string \<Rightarrow> thrown + builderMember" where
  "builderGet prop =
     (if prop = ''select'' then Inr SelectFn
      else if prop = ''execute'' then Inr ExecuteFn
      else if prop = ''then'' then Inr ThenFn
      else if prop = ''base'' then Inr BuilderBaseFn
      else if prop = ''headers'' then Inr BuilderHeadersFn
      else Inl (newError (''Invalid property '' @ doubleQuote @ prop @ doubleQuote @
             ''. Available methods: select(fields), execute(), base(url), headers(obj)'')))"

definition graphQLRequest ::
  "factory \<Rightarrow> heap \<Rightarrow> jsval \<Rightarrow> jsval \<Rightarrow> addr \<Rightarrow> thrown + requestConfig" where
  "graphQLRequest f h q vars c =
     (if \<not> isNonEmptyString q then Inl (newError ''GraphQL query must be a non-empty string'')
      else
        Inr \<lparr>url = Some (case readBase h c of Some b \<Rightarrow> b | None \<Rightarrow> baseUrl f),
             httpMethod = ''POST'',
             reqData = JObj [(''query'', q), (''variables'', jsOr vars (JObj []))],
             headers = [''Content-Type'' \<mapsto> ''application/json''] ++ factoryHeaders f ++
                       spread (readHeaders h c),
             timeout = None\<rparr>)"

definition executeGraphQLQuery ::
  "factory \<Rightarrow> heap \<Rightarrow> jsval \<Rightarrow> jsval \<Rightarrow> addr \<Rightarrow> thrown + reply" where
  "executeGraphQLQuery f h q vars c =
     (case graphQLRequest f h q vars c of
        Inl t \<Rightarrow> Inl t
      | Inr config \<Rightarrow> httpClient f config)"

text \<open>The functions returned for \<open>select\<close> and \<open>execute\<close>, called.\<close>

definition callSelect ::
  "queryBuilder \<Rightarrow> factory \<Rightarrow> heap \<Rightarrow> graphQLQueryBuilder \<Rightarrow> jsval \<Rightarrow> thrown + reply" where
  "callSelect buildQuery f h b selectedFields =
     (case validateFields selectedFields of
        Inl t \<Rightarrow> Inl t
      | Inr _ \<Rightarrow>
          (case buildGraphQLOperation buildQuery (operation b) (field b) (argsObj b)
                  (case selectedFields of JStr s \<Rightarrow> s | _ \<Rightarrow> []) of
             Inl t \<Rightarrow> Inl t
           | Inr rebuilt \<Rightarrow>
               executeGraphQLQuery f h (query rebuilt) (variables rebuilt) (builderCtx b)))"

definition callExecute :: "factory \<Rightarrow> heap \<Rightarrow> graphQLQueryBuilder \<Rightarrow> thrown + reply" where
  "callExecute f h b =
     executeGraphQLQuery f h (query (built b)) (variables (built b)) (builderCtx b)"

text \<open>
  The function returned for \<open>then\<close>, as \<open>await\<close> calls it: it runs the built query
  and hands the outcome of that promise on to \<open>resolve\<close> and \<open>reject\<close>.
\<close>

definition callThen :: "factory \<Rightarrow> heap \<Rightarrow> graphQLQueryBuilder \<Rightarrow> thrown + reply" where
  "callThen f h b =
     executeGraphQLQuery f h (query (built b)) (variables (built b)) (builderCtx b)"



definition builderApply ::
  "queryBuilder \<Rightarrow> heap \<Rightarrow> graphQLQueryBuilder \<Rightarrow> jsval \<Rightarrow>
     thrown + heap \<times> graphQLQueryBuilder" where
  "builderApply buildQuery h b args =
     (case validateGraphQLArgs args of
        Inl t \<Rightarrow> Inl t
      | Inr _ \<Rightarrow>
          map_sum id (Pair h)
            (createQueryBuilder buildQuery (operation b) (field b)
               (case args of JObj kvs \<Rightarrow> kvs | _ \<Rightarrow> []) (builderCtx b)))"

text \<open>
  The template of \<open>execute()\<close> in the words of the claim: the second part holds an
  empty pair of braces.
\<close>

definition executeTemplateBySpec :: "operationType \<Rightarrow> string \<Rightarrow> graphQLArgs \<Rightarrow> string list" where
  "executeTemplateBySpec op fld args =
     (if args \<noteq> []
      then [operationName op @ '' { '' @ fld @ '' ('', '') {  } }'']
      else [operationName op @ '' { '' @ fld @ '' '', '' {  } }''])"

section \<open>Collaborators of the examples\<close>

text \<open>
  The request hook of the test \<open>should apply request interceptor\<close>
  (\<open>tests/unit/integration/interceptors.test.ts\<close>): it returns the configuration with
  the header \<open>X-Request-ID\<close> added.
\<close>

definition requestInterceptor :: "requestConfig \<Rightarrow> thrown + requestConfig option" where
  "requestInterceptor config =
     Inr (Some (config\<lparr>headers := headers config ++ [''X-Request-ID'' \<mapsto> ''12345'']\<rparr>))"

text \<open>
  A transport that answers with the value of the header \<open>k\<close> of the configuration it
  is called with (\<open>undefined\<close> when the configuration has no such header).
\<close>

definition echoHeader :: "string \<Rightarrow> requestConfig \<Rightarrow> thrown + axiosResponse" where
  "echoHeader k config =
     Inr \<lparr>respData = Some \<lparr>bodyData = (case headers config k of
                                          Some v \<Rightarrow> JStr v
                                        | None \<Rightarrow> JUndefined),
                             bodyErrors = None\<rparr>,
          respStatus = 200\<rparr>"

text \<open>
  A URL platform for the examples: it accepts every input, resolves a path against a
  base by joining the two with a slash, and appends a parameter as \<open>?k=v\<close>.
\<close>

definition examplePlatform :: urlPlatform where
  "examplePlatform =
     \<lparr>parseUrl = (\<lambda>input base. Some (case base of None \<Rightarrow> input | Some b \<Rightarrow> b @ ''/'' @ input)),
      appendParam = (\<lambda>u k v. u @ ''?'' @ k @ ''='' @ v)\<rparr>"


section \<open>Properties of the error normalizer\<close>

lemma compose_unfold:
  "compose \<lparr>extensions = Some ext, message = outer\<rparr> =
     formatErrorResponse
       \<lparr>extensions = Some ([''message'' \<mapsto> jsOr (getProp ext ''message'') (JStr [])] ++
                            ([''code'' \<mapsto> jsOr (getProp ext ''code'') (JStr [])] ++ ext)),
        message = JUndefined\<rparr>"
  by (simp add: compose_def formatErrorCode_def formatErrorMessage_def spread_def
           split: sum.splits)

lemma staged_code:
  "getProp ([''message'' \<mapsto> a] ++ ([''code'' \<mapsto> b] ++ ext)) ''code'' =
     (if ext ''code'' = None then b else getProp ext ''code'')"
  by (simp add: getProp_def map_add_def split: option.splits)

lemma staged_message:
  "getProp ([''message'' \<mapsto> a] ++ ([''code'' \<mapsto> b] ++ ext)) ''message'' =
     (if ext ''message'' = None then a else getProp ext ''message'')"
  by (simp add: getProp_def map_add_def split: option.splits)

text \<open>
  The third stage on the output of the first two: the code is the one of the raw
  extensions when the key is there, the message likewise.
\<close>

lemma formatErrorResponse_staged:
  "formatErrorResponse
       \<lparr>extensions = Some ([''message'' \<mapsto> a] ++ ([''code'' \<mapsto> b] ++ ext)),
        message = JUndefined\<rparr> =
   (let c = (if ext ''code'' = None then b else getProp ext ''code'');
        m0 = (if ext ''message'' = None then a else getProp ext ''message'');
        m = (if m0 = JUndefined then JStr [] else m0);
        processed =
                (case (if c = JStr ''422'' then objectValues m else None) of
                   Some vs \<Rightarrow> map_sum id JStr (joinElements '', '' vs)
                 | None \<Rightarrow> Inr m)
     in case processed of
               Inl t \<Rightarrow> Inl t
             | Inr processedMessage \<Rightarrow>
                 if truthy c then
                   (case jsString c of
                      Inl t \<Rightarrow> Inl t
                    | Inr k \<Rightarrow>
                        Inr (normalized c (jsOr (member (defaultMessages m processedMessage) k)
                                       (JStr ''Unknown error''))))
                 else Inr (normalized c (JStr [])))"
  unfolding formatErrorResponse_def normalized_def
  by (simp only: ierrors.simps option.case staged_code staged_message Let_def)

lemma normalized_eq_iff: "normalized c m = normalized c' m' \<longleftrightarrow> c = c' \<and> m = m'"
proof
  assume h: "normalized c m = normalized c' m'"
  then have e: "[''code'' \<mapsto> c, ''message'' \<mapsto> m] = [''code'' \<mapsto> c', ''message'' \<mapsto> m']"
    by (simp add: normalized_def)
  from fun_cong [OF e, of "''code''"] fun_cong [OF e, of "''message''"]
  show "c = c' \<and> m = m'" by simp
qed simp

lemma member_table_empty:
  assumes "k \<in> {''401'', ''404'', ''500'', ''422''}"
  shows "member (defaultMessages (JStr []) (JStr [])) k = JStr []"
  using assms by (auto simp: member_def defaultMessages_def)

lemma member_unknown:
  assumes "k \<notin> set knownCodes" "objectPrototypeMember k = None"
  shows "member (defaultMessages m p) k = JUndefined"
  using assms by (simp add: member_def defaultMessages_def knownCodes_def)

lemma compose_code:
  assumes "getProp ext ''code'' = JStr k" "k \<noteq> []" "k \<noteq> ''422''"
  shows "compose \<lparr>extensions = Some ext, message = outer\<rparr> =
         Inr (normalized (JStr k)
               (jsOr (member (defaultMessages
                   (if getProp ext ''message'' = JUndefined then JStr [] else getProp ext ''message'')
                   (if getProp ext ''message'' = JUndefined then JStr [] else getProp ext ''message'')) k)
                 (JStr ''Unknown error'')))"
proof -
  let ?a = "jsOr (getProp ext ''message'') (JStr [])"
  let ?b = "jsOr (getProp ext ''code'') (JStr [])"
  have c: "(if ext ''code'' = None then ?b else getProp ext ''code'') = JStr k"
    using assms(1) by (auto simp: getProp_def split: option.splits)
  have m: "(if (if ext ''message'' = None then ?a else getProp ext ''message'') = JUndefined
            then JStr [] else (if ext ''message'' = None then ?a else getProp ext ''message''))
          = (if getProp ext ''message'' = JUndefined then JStr [] else getProp ext ''message'')"
    by (auto simp: jsOr_def getProp_def)
  show ?thesis
    unfolding compose_unfold formatErrorResponse_staged Let_def c m
    using assms(2,3) by simp
qed

lemma compose_422_object:
  assumes "getProp ext ''code'' = JStr ''422''"
    "objectValues (getProp ext ''message'') = Some vs"
    "joinElements '', '' vs = Inr s"
  shows "compose \<lparr>extensions = Some ext, message = outer\<rparr> =
         Inr (normalized (JStr ''422'') (JStr (if s = [] then ''Unknown error'' else s)))"
proof -
  let ?a = "jsOr (getProp ext ''message'') (JStr [])"
  let ?b = "jsOr (getProp ext ''code'') (JStr [])"
  have c: "(if ext ''code'' = None then ?b else getProp ext ''code'') = JStr ''422''"
    using assms(1) by (auto simp: getProp_def split: option.splits)
  have u: "getProp ext ''message'' \<noteq> JUndefined" "ext ''message'' \<noteq> None"
    using assms(2) by (auto simp: getProp_def split: option.splits)
  have m: "(if (if ext ''message'' = None then ?a else getProp ext ''message'') = JUndefined
            then JStr [] else (if ext ''message'' = None then ?a else getProp ext ''message''))
          = getProp ext ''message''"
    using u by auto
  show ?thesis
    unfolding compose_unfold formatErrorResponse_staged Let_def c m
    using assms(2,3) by (simp add: member_def defaultMessages_def jsOr_def)
qed

lemma compose_no_code:
  assumes "ext ''code'' = None"
  shows "compose \<lparr>extensions = Some ext, message = outer\<rparr> = Inr (normalized (JStr []) (JStr []))"
proof -
  let ?b = "jsOr (getProp ext ''code'') (JStr [])"
  have c: "(if ext ''code'' = None then ?b else getProp ext ''code'') = JStr []"
    using assms(1) by (auto simp: getProp_def jsOr_def)
  show ?thesis
    unfolding compose_unfold formatErrorResponse_staged Let_def c
    by simp
qed

text \<open>
  A raw error without \<open>extensions\<close> makes \<open>compose\<close> throw, and a code that names a
  member of \<open>Object.prototype\<close> resolves to that member.
\<close>

lemma compose_without_extensions:
  "compose \<lparr>extensions = None, message = outer\<rparr> =
     Inl (typeError ''Cannot read properties of undefined (reading 'code')'')"
  by (simp add: compose_def)

lemma compose_inherited_member:
  "compose \<lparr>extensions = Some [''code'' \<mapsto> JStr ''constructor''], message = JUndefined\<rparr>
     = Inr (normalized (JStr ''constructor'') (JBuiltin ''Object''))"
  by (simp add: compose_code getProp_def member_def defaultMessages_def
        objectPrototypeMember_def jsOr_def)

text \<open>
  Claim C5, as amended. For a raw error with extensions \<open>ext\<close>, \<open>compose\<close> returns
  exactly \<open>{extensions: {code, message}}\<close>, where
  \<^item> code \<open>'422'\<close> with a non-null object (or array) message whose values join, with
    \<open>', '\<close>, to a non-empty string gives that string;
  \<^item> code \<open>'BAD_USER_INPUT'\<close> gives \<open>"Input is not valid"\<close>;
  \<^item> code \<open>'INTERNAL_SERVER_ERROR'\<close> gives \<open>"Internal Server Error"\<close>;
  \<^item> an absent code gives code and message \<open>""\<close>;
  \<^item> a non-empty code string that is neither a key of the table nor the name of a
    member of \<open>Object.prototype\<close> gives \<open>"Unknown error"\<close>.
\<close>

theorem compose_message_by_code:
  "(getProp ext ''code'' = JStr ''422'' \<and> objectValues (getProp ext ''message'') = Some vs \<and>
      joinElements '', '' vs = Inr s \<and> s \<noteq> [] \<longrightarrow>
      compose \<lparr>extensions = Some ext, message = outer\<rparr> =
        Inr (normalized (JStr ''422'') (JStr s))) \<and>
   (getProp ext ''code'' = JStr ''BAD_USER_INPUT'' \<longrightarrow>
      compose \<lparr>extensions = Some ext, message = outer\<rparr> =
        Inr (normalized (JStr ''BAD_USER_INPUT'') (JStr ''Input is not valid''))) \<and>
   (getProp ext ''code'' = JStr ''INTERNAL_SERVER_ERROR'' \<longrightarrow>
      compose \<lparr>extensions = Some ext, message = outer\<rparr> =
        Inr (normalized (JStr ''INTERNAL_SERVER_ERROR'') (JStr ''Internal Server Error''))) \<and>
   (ext ''code'' = None \<longrightarrow>
      compose \<lparr>extensions = Some ext, message = outer\<rparr> =
        Inr (normalized (JStr []) (JStr []))) \<and>
   (getProp ext ''code'' = JStr k \<and> k \<noteq> [] \<and> k \<notin> set knownCodes \<and>
      objectPrototypeMember k = None \<longrightarrow>
      compose \<lparr>extensions = Some ext, message = outer\<rparr> =
        Inr (normalized (JStr k) (JStr ''Unknown error'')))"
proof (intro conjI impI)
  assume "getProp ext ''code'' = JStr ''422'' \<and> objectValues (getProp ext ''message'') = Some vs \<and>
      joinElements '', '' vs = Inr s \<and> s \<noteq> []"
  then show "compose \<lparr>extensions = Some ext, message = outer\<rparr> =
      Inr (normalized (JStr ''422'') (JStr s))"
    using compose_422_object [of ext vs s outer] by simp
next
  assume "getProp ext ''code'' = JStr ''BAD_USER_INPUT''"
  then show "compose \<lparr>extensions = Some ext, message = outer\<rparr> =
        Inr (normalized (JStr ''BAD_USER_INPUT'') (JStr ''Input is not valid''))"
    by (simp add: compose_code member_def defaultMessages_def jsOr_def)
next
  assume "getProp ext ''code'' = JStr ''INTERNAL_SERVER_ERROR''"
  then show "compose \<lparr>extensions = Some ext, message = outer\<rparr> =
        Inr (normalized (JStr ''INTERNAL_SERVER_ERROR'') (JStr ''Internal Server Error''))"
    by (simp add: compose_code member_def defaultMessages_def jsOr_def)
next
  assume "ext ''code'' = None"
  then show "compose \<lparr>extensions = Some ext, message = outer\<rparr> =
      Inr (normalized (JStr []) (JStr []))"
    by (rule compose_no_code)
next
  assume h: "getProp ext ''code'' = JStr k \<and> k \<noteq> [] \<and> k \<notin> set knownCodes \<and>
      objectPrototypeMember k = None"
  then have "k \<noteq> ''422''" by (auto simp: knownCodes_def defaultMessages_def)
  with h show "compose \<lparr>extensions = Some ext, message = outer\<rparr> =
      Inr (normalized (JStr k) (JStr ''Unknown error''))"
    by (simp add: compose_code member_unknown jsOr_def)
qed

theorem compose_message_by_code_witness:
  "compose \<lparr>extensions = Some [''code'' \<mapsto> JStr ''422'',
       ''message'' \<mapsto> JObj [(''field1'', JStr ''Error 1''), (''field2'', JStr ''Error 2'')]],
      message = JUndefined\<rparr>
     = Inr (normalized (JStr ''422'') (JStr ''Error 1, Error 2'')) \<and>
   compose \<lparr>extensions = Some [''code'' \<mapsto> JStr ''BAD_USER_INPUT'',
       ''message'' \<mapsto> JStr ''Invalid input''], message = JUndefined\<rparr>
     = Inr (normalized (JStr ''BAD_USER_INPUT'') (JStr ''Input is not valid'')) \<and>
   compose \<lparr>extensions = Some [''code'' \<mapsto> JStr ''INTERNAL_SERVER_ERROR'',
       ''message'' \<mapsto> JStr ''Server crashed''], message = JUndefined\<rparr>
     = Inr (normalized (JStr ''INTERNAL_SERVER_ERROR'') (JStr ''Internal Server Error'')) \<and>
   compose \<lparr>extensions = Some [''message'' \<mapsto> JStr ''Some error''], message = JUndefined\<rparr>
     = Inr (normalized (JStr []) (JStr [])) \<and>
   compose \<lparr>extensions = Some [''code'' \<mapsto> JStr ''UNKNOWN'',
       ''message'' \<mapsto> JStr ''Unknown''], message = JUndefined\<rparr>
     = Inr (normalized (JStr ''UNKNOWN'') (JStr ''Unknown error''))"
proof -
  note t = compose_message_by_code
  have 1: "compose \<lparr>extensions = Some [''code'' \<mapsto> JStr ''422'',
       ''message'' \<mapsto> JObj [(''field1'', JStr ''Error 1''), (''field2'', JStr ''Error 2'')]],
      message = JUndefined\<rparr>
     = Inr (normalized (JStr ''422'') (JStr ''Error 1, Error 2''))"
    using t [of "[''code'' \<mapsto> JStr ''422'',
       ''message'' \<mapsto> JObj [(''field1'', JStr ''Error 1''), (''field2'', JStr ''Error 2'')]]"
       "[JStr ''Error 1'', JStr ''Error 2'']" "''Error 1, Error 2''" JUndefined]
    by (simp add: getProp_def)
  have 2: "compose \<lparr>extensions = Some [''code'' \<mapsto> JStr ''BAD_USER_INPUT'',
       ''message'' \<mapsto> JStr ''Invalid input''], message = JUndefined\<rparr>
     = Inr (normalized (JStr ''BAD_USER_INPUT'') (JStr ''Input is not valid''))"
    using t [of "[''code'' \<mapsto> JStr ''BAD_USER_INPUT'', ''message'' \<mapsto> JStr ''Invalid input'']"]
    by (simp add: getProp_def)
  have 3: "compose \<lparr>extensions = Some [''code'' \<mapsto> JStr ''INTERNAL_SERVER_ERROR'',
       ''message'' \<mapsto> JStr ''Server crashed''], message = JUndefined\<rparr>
     = Inr (normalized (JStr ''INTERNAL_SERVER_ERROR'') (JStr ''Internal Server Error''))"
    using t [of "[''code'' \<mapsto> JStr ''INTERNAL_SERVER_ERROR'', ''message'' \<mapsto> JStr ''Server crashed'']"]
    by (simp add: getProp_def)
  have 4: "compose \<lparr>extensions = Some [''message'' \<mapsto> JStr ''Some error''], message = JUndefined\<rparr>
     = Inr (normalized (JStr []) (JStr []))"
    using t [of "[''message'' \<mapsto> JStr ''Some error'']"]
    by simp
  have 5: "compose \<lparr>extensions = Some [''code'' \<mapsto> JStr ''UNKNOWN'',
       ''message'' \<mapsto> JStr ''Unknown''], message = JUndefined\<rparr>
     = Inr (normalized (JStr ''UNKNOWN'') (JStr ''Unknown error''))"
    using t [of "[''code'' \<mapsto> JStr ''UNKNOWN'', ''message'' \<mapsto> JStr ''Unknown'']" _ _ JUndefined
                "''UNKNOWN''"]
    by (simp add: getProp_def knownCodes_def defaultMessages_def objectPrototypeMember_def)
  from 1 2 3 4 5 show ?thesis by blast
qed

text \<open>
  Claim C5 as stated fails: with code \<open>'422'\<close> and the empty object as message, the
  values join to the empty string, and the result is \<open>"Unknown error"\<close>, not that join.
\<close>

theorem compose_422_empty_object_counterexample:
  "joinElements '', '' (map snd []) = Inr [] \<and>
   compose \<lparr>extensions = Some [''code'' \<mapsto> JStr ''422'', ''message'' \<mapsto> JObj []],
            message = JUndefined\<rparr>
     = Inr (normalized (JStr ''422'') (JStr ''Unknown error'')) \<and>
   compose \<lparr>extensions = Some [''code'' \<mapsto> JStr ''422'', ''message'' \<mapsto> JObj []],
            message = JUndefined\<rparr>
     \<noteq> Inr (normalized (JStr ''422'') (JStr []))"
  using compose_422_object
          [of "[''code'' \<mapsto> JStr ''422'', ''message'' \<mapsto> JObj []]" "[]" "[]" JUndefined]
  by (simp add: getProp_def normalized_eq_iff)

text \<open>
  Claim C10. For a raw error whose \<open>extensions.code\<close> is \<open>'401'\<close>, \<open>'404'\<close>,
  \<open>'500'\<close> or \<open>'422'\<close> and whose \<open>extensions.message\<close> is absent (it reads as
  \<open>undefined\<close>) or the empty string, \<open>compose\<close> returns the message
  \<open>"Unknown error"\<close>: the falsy table entry falls through the \<open>||\<close> default.
\<close>

theorem compose_falsy_table_message:
  assumes "getProp ext ''code'' = JStr k"
    and "k \<in> {''401'', ''404'', ''500'', ''422''}"
    and "getProp ext ''message'' \<in> {JUndefined, JStr []}"
  shows "compose \<lparr>extensions = Some ext, message = outer\<rparr> =
           Inr (normalized (JStr k) (JStr ''Unknown error''))"
proof -
  let ?a = "jsOr (getProp ext ''message'') (JStr [])"
  let ?b = "jsOr (getProp ext ''code'') (JStr [])"
  have c: "(if ext ''code'' = None then ?b else getProp ext ''code'') = JStr k"
    using assms(1) by (auto simp: getProp_def split: option.splits)
  have a: "?a = JStr []"
    using assms(3) by (auto simp: jsOr_def)
  have m: "(if (if ext ''message'' = None then ?a else getProp ext ''message'') = JUndefined
            then JStr [] else (if ext ''message'' = None then ?a else getProp ext ''message''))
           = JStr []"
    using assms(3) a by auto
  have k: "k \<noteq> []" using assms(2) by auto
  show ?thesis
    unfolding compose_unfold formatErrorResponse_staged Let_def c m
    using k assms(2) by (simp add: member_table_empty jsOr_def)
qed

theorem compose_falsy_table_message_witness:
  "compose \<lparr>extensions = Some [''code'' \<mapsto> JStr ''422''], message = JUndefined\<rparr> =
     Inr (normalized (JStr ''422'') (JStr ''Unknown error'')) \<and>
   compose \<lparr>extensions = Some [''code'' \<mapsto> JStr ''401'', ''message'' \<mapsto> JStr []],
            message = JStr ''Unauthorized''\<rparr> =
     Inr (normalized (JStr ''401'') (JStr ''Unknown error''))"
  using compose_falsy_table_message [of "[''code'' \<mapsto> JStr ''422'']" "''422''" JUndefined]
        compose_falsy_table_message
          [of "[''code'' \<mapsto> JStr ''401'', ''message'' \<mapsto> JStr []]" "''401''" "JStr ''Unauthorized''"]
  by (simp add: getProp_def)

section \<open>Properties of the request execution engine\<close>

text \<open>
  The handler computes the status and the message as the specification words them;
  the envelope is there when \<open>String\<close> can convert the status.
\<close>

lemma handleRequestError_by_spec:
  "handleRequestError (Thrown error) =
     (case makeErrorResponse (statusBySpec error) (messageBySpec error) of
        Inl t \<Rightarrow> Inl t
      | Inr e \<Rightarrow> Inr \<lparr>data = JNull, errors = Some [e]\<rparr>)"
  by (simp add: statusBySpec_def messageBySpec_def isTimeout_def jsOr_def Let_def)

lemma makeRequest_envelope_by_spec:
  assumes "tryRequest ic transport config = Inl (Thrown error)"
    and "jsString (statusBySpec error) = Inr s"
  shows "makeRequest ic transport config =
           Inr (Built \<lparr>data = JNull,
                  errors = Some [\<lparr>extensions = Some
                                     [''message'' \<mapsto> messageBySpec error,
                                      ''error'' \<mapsto> JBool True,
                                      ''code'' \<mapsto> JStr s],
                                  message = JStr ''Internal Server Error''\<rparr>]\<rparr>)"
  unfolding makeRequest_def assms(1)
  by (simp only: sum.case handleRequestError_by_spec)
     (simp add: makeErrorResponse_def assms(2))

lemma makeRequest_rejects_on_status:
  assumes "tryRequest ic transport config = Inl (Thrown error)"
    and "jsString (statusBySpec error) = Inl t"
  shows "makeRequest ic transport config = Inl t"
  unfolding makeRequest_def assms(1)
  by (simp only: sum.case handleRequestError_by_spec)
     (simp add: makeErrorResponse_def assms(2))

lemma timeout_by_spec:
  assumes "code error = JStr ''ECONNABORTED''"
    and "response error = JUndefined \<or> response error = JNull"
  shows "statusBySpec error = JNum ''408''" "messageBySpec error = JStr ''Request timeout''"
  using assms by (auto simp: statusBySpec_def messageBySpec_def isTimeout_def)

lemma makeRequest_timeout_envelope:
  assumes "tryRequest ic transport config = Inl (Thrown error)"
    and "code error = JStr ''ECONNABORTED''"
    and "response error = JUndefined \<or> response error = JNull"
  shows "makeRequest ic transport config =
           Inr (Built \<lparr>data = JNull,
                  errors = Some [\<lparr>extensions = Some
                                     [''message'' \<mapsto> JStr ''Request timeout'',
                                      ''error'' \<mapsto> JBool True,
                                      ''code'' \<mapsto> JStr ''408''],
                                  message = JStr ''Internal Server Error''\<rparr>]\<rparr>)"
  using makeRequest_envelope_by_spec [OF assms(1), of "''408''"]
        timeout_by_spec [OF assms(2,3)]
  by simp

lemma makeRequest_timeout_example:
  "makeRequest \<lparr>onRequest = None, onResponse = None\<rparr>
     (\<lambda>c. Inl (Thrown \<lparr>response = JUndefined, code = JStr ''ECONNABORTED'',
                        errorMessage = JStr ''timeout of 30000ms exceeded'',
                        instanceOfError = True\<rparr>))
     \<lparr>url = Some ''https://api.example.com/users'', httpMethod = ''GET'', reqData = JUndefined,
      headers = Map.empty, timeout = None\<rparr> =
   Inr (Built \<lparr>data = JNull,
          errors = Some [\<lparr>extensions = Some
                             [''message'' \<mapsto> JStr ''Request timeout'',
                              ''error'' \<mapsto> JBool True,
                              ''code'' \<mapsto> JStr ''408''],
                          message = JStr ''Internal Server Error''\<rparr>]\<rparr>)"
  by (rule makeRequest_timeout_envelope [where error =
         "\<lparr>response = JUndefined, code = JStr ''ECONNABORTED'',
           errorMessage = JStr ''timeout of 30000ms exceeded'', instanceOfError = True\<rparr>"])
     (simp_all add: tryRequest_def)

text \<open>
  The status is read from the caught value as it is: one that \<open>String\<close> cannot convert
  makes the handler throw.
\<close>

lemma makeRequest_unprintable_status_example:
  "makeRequest \<lparr>onRequest = None, onResponse = None\<rparr>
     (\<lambda>c. Inl (Thrown \<lparr>response = JObj [(''status'', JObj [(''toString'', JNull)])],
                        code = JUndefined, errorMessage = JUndefined,
                        instanceOfError = False\<rparr>))
     \<lparr>url = Some ''https://api.example.com/users'', httpMethod = ''GET'', reqData = JUndefined,
      headers = Map.empty, timeout = None\<rparr> =
   Inl (typeError ''Cannot convert object to primitive value'')"
  by (simp add: makeRequest_def tryRequest_def makeErrorResponse_def member_def)

lemma printable_status:
  assumes "optionalMember (response error) ''status'' \<in>
             {JUndefined, JNull} \<union> range JNum \<union> range JStr \<union> range JBool"
  shows "\<exists>s. jsString (statusBySpec error) = Inr s"
  using assms by (auto simp: statusBySpec_def)

text \<open>Where the failures of the \<open>try\<close> block come from.\<close>

lemma tryRequest_transport_throws:
  assumes "truthyString (url config) \<noteq> None" "onRequest ic = None" "\<And>c. transport c = Inl t"
  shows "tryRequest ic transport config = Inl t"
  using assms by (auto simp: tryRequest_def Let_def)

lemma tryRequest_request_hook_throws:
  assumes "truthyString (url config) \<noteq> None" "onRequest ic = Some hook" "hook config = Inl t"
  shows "tryRequest ic transport config = Inl t"
  using assms by (auto simp: tryRequest_def)

lemma tryRequest_response_hook_throws:
  assumes "truthyString (url config) \<noteq> None" "onRequest ic = None"
    and "\<And>c. transport c = Inr \<lparr>respData = None, respStatus = st\<rparr>"
    and "onResponse ic = Some hook" "\<And>r. hook r = Inl t"
  shows "tryRequest ic transport config = Inl t"
  using assms by (auto simp: tryRequest_def Let_def)

text \<open>
  A descriptor without a url: the \<open>MissingUrl\<close> failure is thrown inside the \<open>try\<close>
  block and comes back as an envelope.
\<close>

lemma makeRequest_missing_url:
  assumes "truthyString (url config) = None"
  shows "makeRequest ic transport config =
           Inr (Built \<lparr>data = JNull,
                  errors = Some [\<lparr>extensions = Some
                                     [''message'' \<mapsto> JStr ''Request URL is required'',
                                      ''error'' \<mapsto> JBool True,
                                      ''code'' \<mapsto> JStr ''500''],
                                  message = JStr ''Internal Server Error''\<rparr>]\<rparr>)"
  using assms
  by (simp add: makeRequest_def tryRequest_def newError_def makeErrorResponse_def jsOr_def)

text \<open>
  The promise rejects only when the value caught is \<open>null\<close> or \<open>undefined\<close>, or when
  \<open>String\<close> cannot convert its status. Nothing the library itself raises is nullish:
  such a value can only come out of a hook or of the transport.
\<close>

lemma makeRequest_resolves:
  assumes "tryRequest ic transport config \<noteq> Inl Nullish"
    and "\<And>error. tryRequest ic transport config = Inl (Thrown error) \<Longrightarrow>
           \<exists>s. jsString (statusBySpec error) = Inr s"
  shows "\<exists>r. makeRequest ic transport config = Inr r"
proof (cases "tryRequest ic transport config")
  case (Inl t)
  with assms(1) obtain error where t: "t = Thrown error" by (cases t) auto
  from assms(2) Inl t obtain s where "jsString (statusBySpec error) = Inr s" by blast
  from makeRequest_envelope_by_spec [OF _ this] Inl t show ?thesis by blast
next
  case (Inr r)
  then show ?thesis by (simp add: makeRequest_def)
qed

lemma jsString_not_nullish:
  "jsString v \<noteq> Inl Nullish"
  "joinElements sep vs \<noteq> Inl Nullish"
  "elementString v \<noteq> Inl Nullish"
  by (induction v and sep vs and v rule: jsString_joinElements_elementString.induct)
     (auto simp: typeError_def newError_def split: sum.splits)

lemma sum_case_nullish:
  "(case x of Inl t \<Rightarrow> Inl t | Inr y \<Rightarrow> f y) = Inl Nullish \<Longrightarrow>
     x = Inl Nullish \<or> (\<exists>y. x = Inr y \<and> f y = Inl Nullish)"
  by (cases x) auto

lemma formatErrorResponse_not_nullish: "formatErrorResponse e \<noteq> Inl Nullish"
proof (cases "extensions e")
  case None
  then show ?thesis by (simp add: formatErrorResponse_def typeError_def newError_def)
next
  case (Some ext)
  show ?thesis
  proof
    assume a: "formatErrorResponse e = Inl Nullish"
    define c where "c = getProp ext ''code''"
    define m where "m = (if getProp ext ''message'' = JUndefined then JStr [] else getProp ext ''message'')"
    define processed where "processed =
                (case (if c = JStr ''422'' then objectValues m else None) of
                   Some vs \<Rightarrow> map_sum id JStr (joinElements '', '' vs)
                 | None \<Rightarrow> Inr m)"
    have p: "processed \<noteq> Inl Nullish"
      unfolding processed_def
      using jsString_not_nullish(2)
      by (cases "if c = JStr ''422'' then objectValues m else None")
         (auto simp: map_sum_def split: sum.splits)
    from a have "(case processed of
               Inl t \<Rightarrow> Inl t
             | Inr processedMessage \<Rightarrow>
                 if truthy c then
                   (case jsString c of
                      Inl t \<Rightarrow> Inl t
                    | Inr k \<Rightarrow>
                        Inr \<lparr>extensions = Some
                               [''code'' \<mapsto> c,
                                ''message'' \<mapsto>
                                  jsOr (member (defaultMessages m processedMessage) k)
                                       (JStr ''Unknown error'')],
                             message = JUndefined\<rparr>)
                 else
                   Inr \<lparr>extensions = Some [''code'' \<mapsto> c, ''message'' \<mapsto> JStr []],
                        message = JUndefined\<rparr>) = Inl Nullish"
      unfolding formatErrorResponse_def Some option.case Let_def c_def m_def processed_def
      by simp
    from sum_case_nullish [OF this] p obtain pm where
      "(if truthy c then
                   (case jsString c of
                      Inl t \<Rightarrow> Inl t
                    | Inr k \<Rightarrow>
                        Inr \<lparr>extensions = Some
                               [''code'' \<mapsto> c,
                                ''message'' \<mapsto>
                                  jsOr (member (defaultMessages m pm) k)
                                       (JStr ''Unknown error'')],
                             message = JUndefined\<rparr>)
                 else
                   Inr \<lparr>extensions = Some [''code'' \<mapsto> c, ''message'' \<mapsto> JStr []],
                        message = JUndefined\<rparr>) = Inl Nullish"
      by blast
    then show False
      using jsString_not_nullish(1) [of c]
      by (cases "truthy c"; cases "jsString c") auto
  qed
qed

lemma compose_not_nullish: "compose e \<noteq> Inl Nullish"
proof (cases "extensions e")
  case None
  then show ?thesis by (simp add: compose_def typeError_def newError_def)
next
  case (Some ext)
  then have e: "e = \<lparr>extensions = Some ext, message = message e\<rparr>" by simp
  show ?thesis
    by (subst e) (simp only: compose_unfold formatErrorResponse_not_nullish not_False_eq_True)
qed

lemma mapThrowing_compose_not_nullish: "mapThrowing compose es \<noteq> Inl Nullish"
  by (induction es) (auto simp: compose_not_nullish split: sum.splits)


lemma tryRequest_nullish_origin:
  assumes a: "tryRequest ic transport config = Inl Nullish"
  shows "(\<exists>hook c. onRequest ic = Some hook \<and> hook c = Inl Nullish) \<or>
         (\<exists>c. transport c = Inl Nullish) \<or>
         (\<exists>hook r. onResponse ic = Some hook \<and> hook r = Inl Nullish)"
proof (rule ccontr)
  assume n: "\<not> ?thesis"
  then have h1: "\<And>hook c. onRequest ic = Some hook \<Longrightarrow> hook c \<noteq> Inl Nullish"
    and h2: "\<And>c. transport c \<noteq> Inl Nullish"
    and h3: "\<And>hook r. onResponse ic = Some hook \<Longrightarrow> hook r \<noteq> Inl Nullish"
    by blast+
  have u: "truthyString (url config) \<noteq> None"
  proof
    assume "truthyString (url config) = None"
    with a show False by (simp add: tryRequest_def newError_def)
  qed
  define pre where "pre = (case onRequest ic of Some hook \<Rightarrow> hook config | None \<Rightarrow> Inr (Some config))"
  have pre: "pre \<noteq> Inl Nullish"
    unfolding pre_def using h1 by (cases "onRequest ic") auto
  have post: "(case onResponse ic of
                 Some hook \<Rightarrow> map_sum id Hooked (hook result)
               | None \<Rightarrow> Inr (Built response')) \<noteq> Inl Nullish" for result response'
  proof (cases "onResponse ic")
    case None
    then show ?thesis by simp
  next
    case (Some hook)
    with h3 [OF Some, of result] show ?thesis by (cases "hook result") auto
  qed
  have body: "(case transport finalConfig of
                 Inl t \<Rightarrow> Inl t
               | Inr result \<Rightarrow>
                   let responseData = (case respData result of None \<Rightarrow> JUndefined | Some b \<Rightarrow> bodyData b);
                       errs = (case respData result of None \<Rightarrow> None | Some b \<Rightarrow> bodyErrors b);
                       response = \<lparr>data = (if responseData = JUndefined \<or> responseData = JNull
                                            then JNull else responseData),
                                   errors = None\<rparr>;
                       withErrors =
                         (case errs of
                            Some (e # es) \<Rightarrow>
                              (case mapThrowing compose (e # es) of
                                 Inl t \<Rightarrow> Inl t
                               | Inr normalizedErrors \<Rightarrow> Inr (response\<lparr>errors := Some normalizedErrors\<rparr>))
                          | _ \<Rightarrow> Inr response)
                   in case withErrors of
                        Inl t \<Rightarrow> Inl t
                      | Inr response' \<Rightarrow>
                          (case onResponse ic of
                             Some hook \<Rightarrow> map_sum id Hooked (hook result)
                           | None \<Rightarrow> Inr (Built response'))) \<noteq> Inl Nullish" for finalConfig
  proof (cases "transport finalConfig")
    case (Inl t)
    with h2 [of finalConfig] show ?thesis by auto
  next
    case (Inr result)
    show ?thesis
      unfolding Inr sum.case Let_def
      using post mapThrowing_compose_not_nullish
      by (auto simp: compose_not_nullish split: sum.splits option.splits list.splits)
  qed
  have "tryRequest ic transport config = (case pre of
          Inl t \<Rightarrow> Inl t
        | Inr None \<Rightarrow> Inl (typeError ''Cannot read properties of undefined (reading 'timeout')'')
        | Inr (Some hooked) \<Rightarrow>
            let finalConfig =
                  (if timeout hooked = None \<or> timeout hooked = Some 0
                   then hooked\<lparr>timeout := Some 30000\<rparr> else hooked)
            in case transport finalConfig of
                 Inl t \<Rightarrow> Inl t
               | Inr result \<Rightarrow>
                   let responseData = (case respData result of None \<Rightarrow> JUndefined | Some b \<Rightarrow> bodyData b);
                       errs = (case respData result of None \<Rightarrow> None | Some b \<Rightarrow> bodyErrors b);
                       response = \<lparr>data = (if responseData = JUndefined \<or> responseData = JNull
                                            then JNull else responseData),
                                   errors = None\<rparr>;
                       withErrors =
                         (case errs of
                            Some (e # es) \<Rightarrow>
                              (case mapThrowing compose (e # es) of
                                 Inl t \<Rightarrow> Inl t
                               | Inr normalizedErrors \<Rightarrow> Inr (response\<lparr>errors := Some normalizedErrors\<rparr>))
                          | _ \<Rightarrow> Inr response)
                   in case withErrors of
                        Inl t \<Rightarrow> Inl t
                      | Inr response' \<Rightarrow>
                          (case onResponse ic of
                             Some hook \<Rightarrow> map_sum id Hooked (hook result)
                           | None \<Rightarrow> Inr (Built response')))"
    unfolding tryRequest_def pre_def by (simp only: u if_False)
  with a show False
    using pre body
    by (cases pre; cases "projr pre") (auto simp: typeError_def newError_def Let_def)
qed

text \<open>
  Claim C1. The claim holds for every failure that is not \<open>null\<close> or \<open>undefined\<close> and
  whose status \<open>String\<close> can convert (\<open>makeRequest_resolves\<close>,
  \<open>makeRequest_missing_url\<close>), but a request hook that throws \<open>undefined\<close> (an
  \<open>async\<close> hook with \<open>throw undefined\<close>, or one that returns \<open>Promise.reject()\<close>)
  makes \<open>handleRequestError\<close> itself throw a \<open>TypeError\<close> on \<open>error.response\<close>, and
  the promise of \<open>makeRequest\<close> rejects.
\<close>

theorem makeRequest_rejects_on_nullish_throw:
  "makeRequest \<lparr>onRequest = Some (\<lambda>c. Inl Nullish), onResponse = None\<rparr>
     (\<lambda>c. Inr \<lparr>respData = None, respStatus = 200\<rparr>)
     \<lparr>url = Some ''https://api.example.com/users'', httpMethod = ''GET'', reqData = JUndefined,
      headers = Map.empty, timeout = None\<rparr> =
   Inl (typeError ''Cannot read properties of undefined (reading 'response')'')"
  by (simp add: makeRequest_def tryRequest_def)

text \<open>
  Claim C4. The claim says that every thrown transport or hook failure comes back as
  an envelope with the code and the message of the status and message rules. For a
  caught value that is not \<open>null\<close> or \<open>undefined\<close> and whose status \<open>String\<close> can
  convert, it does (\<open>makeRequest_envelope_by_spec\<close>, \<open>makeRequest_timeout_envelope\<close>).
  But a response hook that throws \<open>undefined\<close>, and a transport that rejects with
  \<open>undefined\<close>, yield no envelope: the handler throws a \<open>TypeError\<close> when it reads
  \<open>error.response\<close>, and the promise of \<open>makeRequest\<close> rejects.
\<close>

theorem makeRequest_no_envelope_on_nullish_failure:
  "makeRequest \<lparr>onRequest = None, onResponse = Some (\<lambda>r. Inl Nullish)\<rparr>
     (\<lambda>c. Inr \<lparr>respData = None, respStatus = 200\<rparr>)
     \<lparr>url = Some ''https://api.example.com/users'', httpMethod = ''GET'', reqData = JUndefined,
      headers = Map.empty, timeout = None\<rparr> =
   Inl (typeError ''Cannot read properties of undefined (reading 'response')'') \<and>
   makeRequest \<lparr>onRequest = None, onResponse = None\<rparr>
     (\<lambda>c. Inl Nullish)
     \<lparr>url = Some ''https://api.example.com/users'', httpMethod = ''GET'', reqData = JUndefined,
      headers = Map.empty, timeout = None\<rparr> =
   Inl (typeError ''Cannot read properties of undefined (reading 'response')'')"
  by (simp add: makeRequest_def tryRequest_def)

section \<open>Properties of the store and of the REST proxy\<close>

lemma extends_refl: "extends h h"
  by (simp add: extends_def)

lemma extends_append: "extends h (h @ cs)"
  by (simp add: extends_def)

lemma extends_trans: "extends h h1 \<Longrightarrow> extends h1 h2 \<Longrightarrow> extends h h2"
  unfolding extends_def
  by (metis append_eq_conv_conj append_take_drop_id append_assoc)

lemma extends_cellAt:
  assumes "extends h h'" "a < length h"
  shows "cellAt h' a = cellAt h a"
proof -
  from assms(1) have e: "h' = h @ drop (length h) h'"
    unfolding extends_def by (metis append_take_drop_id)
  have "cellAt (h @ drop (length h) h') a = cellAt h a"
    using assms(2) by (simp add: cellAt_def nth_append)
  with e show ?thesis by simp
qed

lemma cellAt_Some_less: "cellAt h a = Some c \<Longrightarrow> a < length h"
  by (simp add: cellAt_def split: if_splits)

lemma cellAt_new: "cellAt (h @ [c]) (length h) = Some c"
  by (simp add: cellAt_def)

lemma validContext_less: "validContext h a \<Longrightarrow> a < length h"
  by (auto simp: validContext_def dest: cellAt_Some_less split: option.splits cell.splits)

lemma validContext_extends:
  assumes "validContext h a" "extends h h'"
  shows "validContext h' a" "readBase h' a = readBase h a"
    "readHeadersRef h' a = readHeadersRef h a" "readHeaders h' a = readHeaders h a"
proof -
  have a: "cellAt h' a = cellAt h a"
    using assms validContext_less extends_cellAt by blast
  obtain b hs where c: "cellAt h a = Some (Context b hs)"
    using assms(1) by (auto simp: validContext_def split: option.splits cell.splits)
  have r: "cellAt h' r = cellAt h r" if "hs = Some r" for r
  proof -
    from assms(1) c that have "r < length h"
      by (auto simp: validContext_def dest: cellAt_Some_less split: option.splits cell.splits)
    with assms(2) show ?thesis by (rule extends_cellAt)
  qed
  show "validContext h' a"
    using assms(1) a c r by (auto simp: validContext_def split: option.splits cell.splits)
  show "readBase h' a = readBase h a" by (simp add: readBase_def a)
  show "readHeadersRef h' a = readHeadersRef h a" by (simp add: readHeadersRef_def a)
  show "readHeaders h' a = readHeaders h a"
    using c r by (cases hs) (simp_all add: readHeaders_def readHeadersRef_def a)
qed



lemma validContext_cell:
  assumes "validContext h a"
  shows "\<exists>b hs. cellAt h a = Some (Context b hs) \<and>
           (\<forall>r. hs = Some r \<longrightarrow> (\<exists>m. cellAt h r = Some (HeaderObj m)))"
proof -
  from assms obtain c where c: "cellAt h a = Some c"
    by (cases "cellAt h a") (auto simp: validContext_def)
  with assms obtain b hs where k: "c = Context b hs"
    by (cases c) (auto simp: validContext_def)
  have "\<exists>m. cellAt h r = Some (HeaderObj m)" if "hs = Some r" for r
  proof (cases "cellAt h r")
    case None
    with assms c k that show ?thesis by (simp add: validContext_def)
  next
    case (Some d)
    with assms c k that show ?thesis by (cases d) (simp_all add: validContext_def)
  qed
  with c k show ?thesis by blast
qed

lemma readHeadersRef_cell:
  assumes "validContext h a" "readHeadersRef h a = Some r"
  shows "\<exists>m. cellAt h r = Some (HeaderObj m)"
proof -
  from validContext_cell [OF assms(1)] obtain b hs where c: "cellAt h a = Some (Context b hs)"
    and m: "\<forall>r. hs = Some r \<longrightarrow> (\<exists>m. cellAt h r = Some (HeaderObj m))"
    by blast
  from c assms(2) have "hs = Some r" by (simp add: readHeadersRef_def)
  with m show ?thesis by blast
qed

lemma readHeadersRef_less:
  assumes "validContext h a" "readHeadersRef h a = Some r"
  shows "r < length h"
  using readHeadersRef_cell [OF assms] by (auto dest: cellAt_Some_less)

lemma wellFormed_segments_cell:
  assumes "wellFormed h p" "extends h h'"
  shows "cellAt h' (segments p) = cellAt h (segments p)"
proof -
  from assms(1) have "segments p < length h"
    by (auto simp: wellFormed_def dest: cellAt_Some_less split: option.splits cell.splits)
  with assms(2) show ?thesis by (rule extends_cellAt)
qed

lemma alloc_segments:
  assumes "wellFormed h p"
  shows "wellFormed (h @ [Segments s]) \<lparr>segments = length h, ctx = ctx p\<rparr>"
    and "restView (h @ [Segments s]) \<lparr>segments = length h, ctx = ctx p\<rparr> =
           (s, baseOf h p, headersOf h p)"
proof -
  from assms have v: "validContext h (ctx p)" by (simp add: wellFormed_def)
  note e = validContext_extends [OF v extends_append [of h "[Segments s]"]]
  show "wellFormed (h @ [Segments s]) \<lparr>segments = length h, ctx = ctx p\<rparr>"
    using e(1) by (simp add: wellFormed_def cellAt_new)
  show "restView (h @ [Segments s]) \<lparr>segments = length h, ctx = ctx p\<rparr> =
           (s, baseOf h p, headersOf h p)"
    using e(2,4)
    by (simp add: restView_def segmentsOf_def baseOf_def headersOf_def readSegments_def cellAt_new)
qed

lemma restGet_path:
  assumes "key \<noteq> ''base''" "key \<noteq> ''headers''" "\<not> isHttpMethod key"
  shows "restGet h p key =
           (h @ [Segments (segmentsOf h p @ [key])],
            PathProxy \<lparr>segments = length h, ctx = ctx p\<rparr>)"
  using assms by (simp add: restGet_def alloc_def segmentsOf_def)

lemma restGet_PathProxy:
  assumes "restGet h p key = (h', PathProxy q)"
  shows "key \<noteq> ''base'' \<and> key \<noteq> ''headers'' \<and> \<not> isHttpMethod key"
  using assms by (auto simp: restGet_def alloc_def split: if_splits)

lemma callBase_result:
  assumes "callBase plat h p u = Inr (h', q)"
  shows "h' = h @ [Context (Some u) (readHeadersRef h (ctx p))]"
    and "q = \<lparr>segments = segments p, ctx = length h\<rparr>"
  using assms by (auto simp: callBase_def alloc_def split: sum.splits)

lemma callHeaders_result:
  assumes "callHeaders h p new = Inr (h', q)"
  shows "\<exists>m. new = Some m"
    and "h' = h @ [HeaderObj (headersOf h p ++ spread new),
                   Context (readBase h (ctx p)) (Some (length h))]"
    and "q = \<lparr>segments = segments p, ctx = Suc (length h)\<rparr>"
  using assms
  by (auto simp: callHeaders_def alloc_def validateHeaders_def headersOf_def
           split: sum.splits option.splits)

lemma restApply_result:
  assumes "restApply h p args = Inr (h', q)"
  shows "\<exists>xs. stepSegments (Invoke args) = Inr xs \<and>
              h' = h @ [Segments (segmentsOf h p @ xs)] \<and>
              q = \<lparr>segments = length h, ctx = ctx p\<rparr>"
  using assms by (auto simp: restApply_def alloc_def segmentsOf_def split: sum.splits)

lemma restStep_view:
  assumes wf: "wellFormed h p" and st: "restStep plat h p step = Some (Inr (h', q))"
  shows "extends h h' \<and> wellFormed h' q \<and> restView h' q = stepView step (restView h p)"
proof (cases step)
  case (Access k)
  with st obtain "restGet h p k = (h', PathProxy q)"
    by (auto split: prod.splits restMember.splits)
  with restGet_PathProxy [OF this] restGet_path [of k h p]
  have "h' = h @ [Segments (segmentsOf h p @ [k])]" "q = \<lparr>segments = length h, ctx = ctx p\<rparr>"
    by auto
  with alloc_segments [OF wf, of "segmentsOf h p @ [k]"] Access show ?thesis
    by (simp add: extends_append restView_def)
next
  case (Invoke args)
  with st have "restApply h p args = Inr (h', q)" by simp
  from restApply_result [OF this] obtain xs where
    x: "stepSegments (Invoke args) = Inr xs" "h' = h @ [Segments (segmentsOf h p @ xs)]"
       "q = \<lparr>segments = length h, ctx = ctx p\<rparr>"
    by blast
  with alloc_segments [OF wf, of "segmentsOf h p @ xs"] Invoke show ?thesis
    by (simp add: extends_append restView_def del: stepSegments.simps)
next
  case (SetBase u)
  with st have c: "callBase plat h p u = Inr (h', q)"
    by (simp add: restGet_def)
  note r = callBase_result [OF c]
  from wf have v: "validContext h (ctx p)" by (simp add: wellFormed_def)
  have e: "extends h h'" using r(1) by (simp add: extends_append)
  have s: "cellAt h' (segments p) = cellAt h (segments p)"
    using wf e by (rule wellFormed_segments_cell)
  have hr: "readHeadersRef h' (ctx q) = readHeadersRef h (ctx p)"
           "readBase h' (ctx q) = Some u"
    using r by (simp_all add: readHeadersRef_def readBase_def cellAt_new)
  have href: "cellAt h' a = cellAt h a" if "readHeadersRef h (ctx p) = Some a" for a
  proof -
    from v that have "a < length h" by (rule readHeadersRef_less)
    with e show ?thesis by (rule extends_cellAt)
  qed
  have vq: "validContext h' (ctx q)"
  proof (cases "readHeadersRef h (ctx p)")
    case None
    with r show ?thesis by (simp add: validContext_def cellAt_new)
  next
    case (Some a)
    from readHeadersRef_cell [OF v Some] href [OF Some]
    obtain m where "cellAt h' a = Some (HeaderObj m)" by auto
    with r Some show ?thesis by (simp add: validContext_def cellAt_new)
  qed
  have hq: "readHeaders h' (ctx q) = readHeaders h (ctx p)"
    using hr(1) href by (auto simp: readHeaders_def split: option.splits)
  show ?thesis
    using e s vq hq hr wf r(2) SetBase
    by (simp add: wellFormed_def restView_def segmentsOf_def baseOf_def headersOf_def
                  readSegments_def)
next
  case (SetHeaders new)
  with st have c: "callHeaders h p new = Inr (h', q)"
    by (simp add: restGet_def)
  note r = callHeaders_result [OF c]
  have e: "extends h h'" using r(2) by (simp add: extends_append)
  have s: "cellAt h' (segments p) = cellAt h (segments p)"
    using wf e by (rule wellFormed_segments_cell)
  have c1: "cellAt h' (Suc (length h)) = Some (Context (readBase h (ctx p)) (Some (length h)))"
    and c0: "cellAt h' (length h) = Some (HeaderObj (headersOf h p ++ spread new))"
    using r(2) by (simp_all add: cellAt_def nth_append)
  show ?thesis
    using e s c0 c1 wf r(3) SetHeaders
    by (simp add: wellFormed_def validContext_def restView_def segmentsOf_def baseOf_def
                  headersOf_def readSegments_def readBase_def readHeaders_def
                  readHeadersRef_def spread_def)
qed

lemma stepView_segments:
  "fst (stepView s v) = fst v @ (case stepSegments s of Inl t \<Rightarrow> [] | Inr xs \<Rightarrow> xs)"
  by (cases v; cases s) simp_all

lemma foldl_stepView_segments:
  "fst (foldl (\<lambda>v s. stepView s v) v steps) = fst v @ chainSegments steps"
proof (induction steps arbitrary: v)
  case Nil
  show ?case by simp
next
  case (Cons s steps)
  show ?case
    by (simp only: foldl_Cons Cons.IH stepView_segments chainSegments.simps append_assoc)
qed

lemma restChain_view:
  assumes "wellFormed h p" "restChain plat h p steps = Some (Inr (h', q))"
  shows "extends h h' \<and> wellFormed h' q \<and>
         restView h' q = foldl (\<lambda>v s. stepView s v) (restView h p) steps"
  using assms
proof (induction steps arbitrary: h p)
  case Nil
  then show ?case by (simp add: extends_refl)
next
  case (Cons s steps)
  from Cons.prems(2) obtain h1 p1 where
    st: "restStep plat h p s = Some (Inr (h1, p1))" and
    ch: "restChain plat h1 p1 steps = Some (Inr (h', q))"
    by (auto split: option.splits sum.splits prod.splits)
  from restStep_view [OF Cons.prems(1) st]
  have 1: "extends h h1" "wellFormed h1 p1" "restView h1 p1 = stepView s (restView h p)"
    by blast+
  from Cons.IH [OF 1(2) ch] 1 show ?case
    by (auto intro: extends_trans)
qed

text \<open>
  Claim C6. REST path accumulation: a property access with a key that is not
  \<open>base\<close> or \<open>headers\<close> and that \<open>isHttpMethod\<close> rejects yields a proxy whose
  segments are the receiver's followed by that key; an invocation yields a proxy whose
  segments are the receiver's followed by its arguments, in call order, without
  \<open>null\<close> and \<open>undefined\<close> and each converted by \<open>String\<close>; and the segments at the
  end of any chain are the segments at its start followed by what each step
  contributes. A number among the arguments contributes what \<open>String\<close> prints for it,
  whatever its magnitude (\<open>JNum ''123''\<close> for \<open>123\<close>, \<open>JNum ''1e+21''\<close> for \<open>1e21\<close>).
  The witness runs \<open>rest.api.v1.users(123).posts\<close> and
  \<open>rest.users(null, 123, undefined, 'posts')\<close> from the root proxy; joined with \<open>/\<close>,
  as \<open>URLBuilder.build\<close> does, the segments are \<open>api/v1/users/123/posts\<close> and
  \<open>users/123/posts\<close>.
\<close>

theorem rest_path_accumulation:
  "(wellFormed h p \<and> key \<noteq> ''base'' \<and> key \<noteq> ''headers'' \<and> \<not> isHttpMethod key \<longrightarrow>
      (\<exists>h1 q1. restGet h p key = (h1, PathProxy q1) \<and>
         segmentsOf h1 q1 = segmentsOf h p @ [key])) \<and>
   (wellFormed h p \<and> restApply h p args = Inr (h', q) \<longrightarrow>
      (\<exists>xs. mapThrowing jsString (filter (\<lambda>arg. arg \<noteq> JNull \<and> arg \<noteq> JUndefined) args) = Inr xs \<and>
         segmentsOf h' q = segmentsOf h p @ xs)) \<and>
   (wellFormed h p \<and> restChain plat h p steps = Some (Inr (h', q)) \<longrightarrow>
      segmentsOf h' q = segmentsOf h p @ chainSegments steps)"
proof (intro conjI impI)
  assume a: "wellFormed h p \<and> key \<noteq> ''base'' \<and> key \<noteq> ''headers'' \<and> \<not> isHttpMethod key"
  then have g: "restGet h p key =
           (h @ [Segments (segmentsOf h p @ [key])],
            PathProxy \<lparr>segments = length h, ctx = ctx p\<rparr>)"
    by (simp add: restGet_path)
  have "segmentsOf (h @ [Segments (segmentsOf h p @ [key])]) \<lparr>segments = length h, ctx = ctx p\<rparr>
          = segmentsOf h p @ [key]"
    by (simp add: segmentsOf_def readSegments_def cellAt_new)
  with g show "\<exists>h1 q1. restGet h p key = (h1, PathProxy q1) \<and>
         segmentsOf h1 q1 = segmentsOf h p @ [key]"
    by blast
next
  assume a: "wellFormed h p \<and> restApply h p args = Inr (h', q)"
  from restApply_result [of h p args h' q] a obtain xs where
    x: "stepSegments (Invoke args) = Inr xs" "h' = h @ [Segments (segmentsOf h p @ xs)]"
       "q = \<lparr>segments = length h, ctx = ctx p\<rparr>"
    by blast
  have "segmentsOf h' q = segmentsOf h p @ xs"
    unfolding x(2,3) by (simp add: segmentsOf_def readSegments_def cellAt_new)
  with x(1) show "\<exists>xs. mapThrowing jsString (filter (\<lambda>arg. arg \<noteq> JNull \<and> arg \<noteq> JUndefined) args) = Inr xs \<and>
         segmentsOf h' q = segmentsOf h p @ xs"
    by simp
next
  assume a: "wellFormed h p \<and> restChain plat h p steps = Some (Inr (h', q))"
  then have "restView h' q = foldl (\<lambda>v s. stepView s v) (restView h p) steps"
    using restChain_view [of h p plat steps h' q] by blast
  then have "fst (restView h' q) = fst (restView h p) @ chainSegments steps"
    by (simp only: foldl_stepView_segments)
  then show "segmentsOf h' q = segmentsOf h p @ chainSegments steps"
    by (simp add: restView_def)
qed

lemma not_verb_examples:
  "\<not> isHttpMethod ''api''" "\<not> isHttpMethod ''v1''" "\<not> isHttpMethod ''users''"
  "\<not> isHttpMethod ''posts''"
  by (simp_all add: isHttpMethod_def toLowerCase_def lowerChar_def HTTP_METHODS_def)

lemma chain_example_1:
  "restChain \<lparr>parseUrl = (\<lambda>i b. Some i), appendParam = (\<lambda>u k v. u)\<rparr>
     [Segments [], Context None None] \<lparr>segments = 0, ctx = 1\<rparr>
     [Access ''api'', Access ''v1'', Access ''users'', Invoke [JNum ''123''], Access ''posts''] =
   Some (Inr ([Segments [], Context None None, Segments [''api''], Segments [''api'', ''v1''],
               Segments [''api'', ''v1'', ''users''],
               Segments [''api'', ''v1'', ''users'', ''123''],
               Segments [''api'', ''v1'', ''users'', ''123'', ''posts'']],
              \<lparr>segments = 6, ctx = 1\<rparr>))"
  by (simp add: restGet_def not_verb_examples restApply_def alloc_def readSegments_def
        cellAt_def)

lemma chain_example_2:
  "restChain \<lparr>parseUrl = (\<lambda>i b. Some i), appendParam = (\<lambda>u k v. u)\<rparr>
     [Segments [], Context None None] \<lparr>segments = 0, ctx = 1\<rparr>
     [Access ''users'', Invoke [JNull, JNum ''123'', JUndefined, JStr ''posts'']] =
   Some (Inr ([Segments [], Context None None, Segments [''users''],
               Segments [''users'', ''123'', ''posts'']],
              \<lparr>segments = 3, ctx = 1\<rparr>))"
  by (simp add: restGet_def not_verb_examples restApply_def alloc_def readSegments_def
        cellAt_def)

lemma createRootProxy_empty:
  "createRootProxy [] = ([Segments [], Context None None], \<lparr>segments = 0, ctx = 1\<rparr>)"
  by (simp add: createRootProxy_def alloc_def)

lemma wellFormed_root:
  "wellFormed [Segments [], Context None None] \<lparr>segments = 0, ctx = 1\<rparr>"
  by (simp add: wellFormed_def validContext_def cellAt_def)

text \<open>
  Every proxy of a chain that starts at \<open>createProxy()\<close> is well formed: the root is,
  and \<open>restChain_view\<close> keeps it so along the chain.
\<close>

lemma createRootProxy_wellFormed:
  assumes "createRootProxy h = (h', p)"
  shows "extends h h' \<and> wellFormed h' p \<and> restView h' p = ([], None, Map.empty)"
proof -
  from assms have h': "h' = h @ [Segments [], Context None None]"
    and p: "p = \<lparr>segments = length h, ctx = Suc (length h)\<rparr>"
    by (simp_all add: createRootProxy_def alloc_def)
  have c: "cellAt h' (length h) = Some (Segments [])"
          "cellAt h' (Suc (length h)) = Some (Context None None)"
    unfolding h' by (simp_all add: cellAt_def nth_append)
  show ?thesis
    using c unfolding p
    by (simp add: h' extends_append wellFormed_def validContext_def restView_def segmentsOf_def
          baseOf_def headersOf_def readSegments_def readBase_def readHeaders_def
          readHeadersRef_def spread_def)
qed

theorem rest_path_accumulation_witness:
  "createRootProxy [] = ([Segments [], Context None None], \<lparr>segments = 0, ctx = 1\<rparr>) \<and>
   (\<exists>h q. restChain \<lparr>parseUrl = (\<lambda>i b. Some i), appendParam = (\<lambda>u k v. u)\<rparr>
             [Segments [], Context None None] \<lparr>segments = 0, ctx = 1\<rparr>
             [Access ''api'', Access ''v1'', Access ''users'', Invoke [JNum ''123''], Access ''posts'']
           = Some (Inr (h, q)) \<and>
          joinWith ''/'' (segmentsOf h q) = ''api/v1/users/123/posts'') \<and>
   (\<exists>h q. restChain \<lparr>parseUrl = (\<lambda>i b. Some i), appendParam = (\<lambda>u k v. u)\<rparr>
             [Segments [], Context None None] \<lparr>segments = 0, ctx = 1\<rparr>
             [Access ''users'', Invoke [JNull, JNum ''123'', JUndefined, JStr ''posts'']]
           = Some (Inr (h, q)) \<and>
          joinWith ''/'' (segmentsOf h q) = ''users/123/posts'') \<and>
   (\<exists>h q. restGet [Segments [], Context None None] \<lparr>segments = 0, ctx = 1\<rparr> ''users''
             = (h, PathProxy q) \<and> segmentsOf h q = [''users'']) \<and>
   (\<exists>h q. restApply [Segments [], Context None None] \<lparr>segments = 0, ctx = 1\<rparr>
             [JNull, JNum ''123''] = Inr (h, q) \<and> segmentsOf h q = [''123''])"
proof -
  let ?plat = "\<lparr>parseUrl = (\<lambda>i b. Some i), appendParam = (\<lambda>u k v. u)\<rparr>"
  let ?store = "[Segments [], Context None None]"
  let ?root = "\<lparr>segments = 0, ctx = 1\<rparr>"
  have s0: "segmentsOf ?store ?root = []"
    by (simp add: segmentsOf_def readSegments_def cellAt_def)
  note t1 = rest_path_accumulation [of ?store ?root _ _ _ _ ?plat, THEN conjunct2, THEN conjunct2, rule_format,
      OF conjI, OF wellFormed_root chain_example_1]
  note t2 = rest_path_accumulation [of ?store ?root _ _ _ _ ?plat, THEN conjunct2, THEN conjunct2, rule_format,
      OF conjI, OF wellFormed_root chain_example_2]
  have 1: "joinWith ''/'' (segmentsOf [Segments [], Context None None, Segments [''api''], Segments [''api'', ''v1''],
               Segments [''api'', ''v1'', ''users''],
               Segments [''api'', ''v1'', ''users'', ''123''],
               Segments [''api'', ''v1'', ''users'', ''123'', ''posts'']] \<lparr>segments = 6, ctx = 1\<rparr>) = ''api/v1/users/123/posts''"
    unfolding t1 s0 by simp
  have 2: "joinWith ''/'' (segmentsOf [Segments [], Context None None, Segments [''users''],
               Segments [''users'', ''123'', ''posts'']] \<lparr>segments = 3, ctx = 1\<rparr>) = ''users/123/posts''"
    unfolding t2 s0 by simp
  have 3: "\<exists>h q. restGet ?store ?root ''users'' = (h, PathProxy q) \<and> segmentsOf h q = [''users'']"
    using rest_path_accumulation [of ?store ?root "''users''", THEN conjunct1] wellFormed_root s0
    by (simp add: not_verb_examples)
  have 4: "\<exists>h q. restApply ?store ?root [JNull, JNum ''123''] = Inr (h, q) \<and> segmentsOf h q = [''123'']"
  proof -
    have r: "restApply ?store ?root [JNull, JNum ''123''] =
               Inr (?store @ [Segments [''123'']], \<lparr>segments = 2, ctx = 1\<rparr>)"
      by (simp add: restApply_def alloc_def readSegments_def cellAt_def)
    from rest_path_accumulation [of ?store ?root _ "[JNull, JNum ''123'']" "?store @ [Segments [''123'']]"
           "\<lparr>segments = 2, ctx = 1\<rparr>", THEN conjunct2, THEN conjunct1] wellFormed_root r s0
    have "segmentsOf (?store @ [Segments [''123'']]) \<lparr>segments = 2, ctx = 1\<rparr> = [''123'']"
      by simp
    with r show ?thesis by blast
  qed
  from createRootProxy_empty chain_example_1 chain_example_2 1 2 3 4 show ?thesis by blast
qed

lemma verbRequest_view:
  "verbRequest plat f h p prop options =
     (case build plat (case baseOf h p of Some b \<Rightarrow> b | None \<Rightarrow> baseUrl f)
                 (segmentsOf h p) (optQuery options) of
        Inl t \<Rightarrow> Inl t
      | Inr u \<Rightarrow>
          Inr \<lparr>url = Some u, httpMethod = toUpperCase prop, reqData = optBody options,
               headers = factoryHeaders f ++ headersOf h p ++ spread (optHeaders options),
               timeout = None\<rparr>)"
  unfolding verbRequest_def baseOf_def segmentsOf_def headersOf_def by (rule refl)


text \<open>
  The engine calls the transport once, on the configuration that comes out of the
  request hook (the descriptor itself when there is none) with the default timeout
  filled in: what \<open>makeRequest\<close> yields is the handler's envelope when that call
  fails, and otherwise what it yields for a transport that always answers that way.
\<close>

lemma tryRequest_transport_call:
  assumes "truthyString (url config) \<noteq> None"
    and "(case onRequest ic of Some hook \<Rightarrow> hook config | None \<Rightarrow> Inr (Some config)) =
           Inr (Some hooked)"
  shows "tryRequest ic transport config =
           (case transport (if timeout hooked = None \<or> timeout hooked = Some 0
                            then hooked\<lparr>timeout := Some 30000\<rparr> else hooked) of
              Inl t \<Rightarrow> Inl t
            | Inr result \<Rightarrow> tryRequest ic (\<lambda>c. Inr result) config)"
proof (cases "transport (if timeout hooked = None \<or> timeout hooked = Some 0
                            then hooked\<lparr>timeout := Some 30000\<rparr> else hooked)")
  case (Inl t)
  show ?thesis
    unfolding tryRequest_def Let_def assms(2)
    using assms(1) by (simp only: if_False sum.case option.case Inl)
next
  case (Inr result)
  show ?thesis
    unfolding tryRequest_def Let_def assms(2)
    using assms(1) by (simp only: if_False sum.case option.case Inr)
qed

lemma makeRequest_transport_call:
  assumes "truthyString (url config) \<noteq> None"
    and "(case onRequest ic of Some hook \<Rightarrow> hook config | None \<Rightarrow> Inr (Some config)) =
           Inr (Some hooked)"
  shows "makeRequest ic transport config =
           (case transport (if timeout hooked = None \<or> timeout hooked = Some 0
                            then hooked\<lparr>timeout := Some 30000\<rparr> else hooked) of
              Inl t \<Rightarrow> map_sum id Built (handleRequestError t)
            | Inr result \<Rightarrow> makeRequest ic (\<lambda>c. Inr result) config)"
  unfolding makeRequest_def tryRequest_transport_call [OF assms, of transport]
  by (cases "transport (if timeout hooked = None \<or> timeout hooked = Some 0
                            then hooked\<lparr>timeout := Some 30000\<rparr> else hooked)")
     (simp_all only: sum.case)

lemma verbRequest_config:
  assumes "verbRequest plat f h p prop options = Inr config"
  shows "headers config = factoryHeaders f ++ headersOf h p ++ spread (optHeaders options)"
    and "timeout config = None" and "\<exists>u. url config = Some u"
  using assms by (auto simp: verbRequest_view split: sum.splits)

text \<open>
  Claim C7, as amended. The descriptor a terminal verb call hands to \<open>makeRequest\<close> has
  as headers the instance's default headers, overridden key by key by the context
  headers, overridden key by key by \<open>options.headers\<close>; each \<open>.headers(m)\<close> call yields
  a proxy whose context headers are the receiver's overridden key by key by \<open>m\<close>.
  When no request hook is configured, the transport is called on that descriptor with
  only the default timeout added, so these are the headers sent to it, and the outcome
  of the verb call is the handler's envelope when the transport fails and otherwise
  what the engine makes of the transport's answer. When a request hook is configured,
  the transport is called on the configuration the hook returns (with the default
  timeout when it has none), so the headers sent are those of the hook's result. The
  URL of the descriptor is not the empty string (the platform's \<open>URL\<close> prints none
  that is). The witness: instance \<open>Content-Type: application/json\<close>, context
  \<open>application/xml\<close>, call \<open>text/plain\<close> give \<open>text/plain\<close>, and a transport that
  answers with the \<open>Content-Type\<close> it is sent answers \<open>text/plain\<close>.
\<close>

theorem verb_headers_sent:
  "(verbRequest plat f h p verb options = Inr config \<longrightarrow>
      headers config = factoryHeaders f ++ headersOf h p ++ spread (optHeaders options) \<and>
      (\<forall>k. headers config k =
         (case spread (optHeaders options) k of
            Some v \<Rightarrow> Some v
          | None \<Rightarrow> (case headersOf h p k of Some v \<Rightarrow> Some v | None \<Rightarrow> factoryHeaders f k)))) \<and>
   (wellFormed h p \<and> callHeaders h p new = Inr (h', q) \<longrightarrow>
      (\<exists>m. new = Some m \<and> headersOf h' q = headersOf h p ++ m)) \<and>
   (httpClient f = makeRequest ic transport \<and>
    verbRequest plat f h p verb options = Inr config \<and> url config \<noteq> Some [] \<and>
    onRequest ic = None \<longrightarrow>
      headers (config\<lparr>timeout := Some 30000\<rparr>) =
        factoryHeaders f ++ headersOf h p ++ spread (optHeaders options) \<and>
      callVerb plat f h p verb options =
        (case transport (config\<lparr>timeout := Some 30000\<rparr>) of
           Inl t \<Rightarrow> map_sum id Built (handleRequestError t)
         | Inr result \<Rightarrow> makeRequest ic (\<lambda>c. Inr result) config)) \<and>
   (httpClient f = makeRequest ic transport \<and>
    verbRequest plat f h p verb options = Inr config \<and> url config \<noteq> Some [] \<and>
    onRequest ic = Some hook \<and> hook config = Inr (Some hooked) \<longrightarrow>
      callVerb plat f h p verb options =
        (case transport (if timeout hooked = None \<or> timeout hooked = Some 0
                         then hooked\<lparr>timeout := Some 30000\<rparr> else hooked) of
           Inl t \<Rightarrow> map_sum id Built (handleRequestError t)
         | Inr result \<Rightarrow> makeRequest ic (\<lambda>c. Inr result) config))"
proof (intro conjI impI allI)
  assume a: "verbRequest plat f h p verb options = Inr config"
  then show hc: "headers config = factoryHeaders f ++ headersOf h p ++ spread (optHeaders options)"
    by (rule verbRequest_config(1))
  fix k
  show "headers config k =
         (case spread (optHeaders options) k of
            Some v \<Rightarrow> Some v
          | None \<Rightarrow> (case headersOf h p k of Some v \<Rightarrow> Some v | None \<Rightarrow> factoryHeaders f k))"
    unfolding hc by (simp add: map_add_def split: option.splits)
next
  assume a: "wellFormed h p \<and> callHeaders h p new = Inr (h', q)"
  then have st: "restStep plat h p (SetHeaders new) = Some (Inr (h', q))"
    by (simp add: restGet_def)
  from a callHeaders_result(1) [of h p new h' q] obtain m where m: "new = Some m" by blast
  from restStep_view [OF _ st] a have "restView h' q = stepView (SetHeaders new) (restView h p)"
    by blast
  then have "headersOf h' q = headersOf h p ++ m"
    using m by (simp add: restView_def spread_def)
  with m show "\<exists>m. new = Some m \<and> headersOf h' q = headersOf h p ++ m" by blast
next
  assume a: "httpClient f = makeRequest ic transport \<and>
    verbRequest plat f h p verb options = Inr config \<and> url config \<noteq> Some [] \<and>
    onRequest ic = None"
  then have v: "verbRequest plat f h p verb options = Inr config" by simp
  from verbRequest_config(1) [OF v]
  show "headers (config\<lparr>timeout := Some 30000\<rparr>) =
        factoryHeaders f ++ headersOf h p ++ spread (optHeaders options)"
    by simp
  from verbRequest_config(3) [OF v] a have u: "truthyString (url config) \<noteq> None" by auto
  from a have pre: "(case onRequest ic of Some hook \<Rightarrow> hook config | None \<Rightarrow> Inr (Some config)) =
           Inr (Some config)"
    by simp
  have "callVerb plat f h p verb options = makeRequest ic transport config"
    using a by (simp add: callVerb_def)
  also have "\<dots> = (case transport (config\<lparr>timeout := Some 30000\<rparr>) of
           Inl t \<Rightarrow> map_sum id Built (handleRequestError t)
         | Inr result \<Rightarrow> makeRequest ic (\<lambda>c. Inr result) config)"
    unfolding makeRequest_transport_call [OF u pre, of transport]
    by (simp only: verbRequest_config(2) [OF v] simp_thms if_True)
  finally show "callVerb plat f h p verb options =
        (case transport (config\<lparr>timeout := Some 30000\<rparr>) of
           Inl t \<Rightarrow> map_sum id Built (handleRequestError t)
         | Inr result \<Rightarrow> makeRequest ic (\<lambda>c. Inr result) config)" .
next
  assume a: "httpClient f = makeRequest ic transport \<and>
    verbRequest plat f h p verb options = Inr config \<and> url config \<noteq> Some [] \<and>
    onRequest ic = Some hook \<and> hook config = Inr (Some hooked)"
  then have v: "verbRequest plat f h p verb options = Inr config" by simp
  from verbRequest_config(3) [OF v] a have u: "truthyString (url config) \<noteq> None" by auto
  from a have pre: "(case onRequest ic of Some hook \<Rightarrow> hook config | None \<Rightarrow> Inr (Some config)) =
           Inr (Some hooked)"
    by simp
  have "callVerb plat f h p verb options = makeRequest ic transport config"
    using a by (simp add: callVerb_def)
  then show "callVerb plat f h p verb options =
        (case transport (if timeout hooked = None \<or> timeout hooked = Some 0
                         then hooked\<lparr>timeout := Some 30000\<rparr> else hooked) of
           Inl t \<Rightarrow> map_sum id Built (handleRequestError t)
         | Inr result \<Rightarrow> makeRequest ic (\<lambda>c. Inr result) config)"
    by (simp only: makeRequest_transport_call [OF u pre, of transport])
qed

lemma headers_example_store:
  "callHeaders [Segments [], Context None None] \<lparr>segments = 0, ctx = 1\<rparr>
     (Some [''Content-Type'' \<mapsto> ''application/xml'']) =
   Inr ([Segments [], Context None None,
         HeaderObj [''Content-Type'' \<mapsto> ''application/xml''], Context None (Some 2)],
        \<lparr>segments = 0, ctx = 3\<rparr>)"
  by (simp add: callHeaders_def validateHeaders_def alloc_def readHeaders_def readHeadersRef_def
        readBase_def cellAt_def spread_def)

lemma headers_example_view:
  "segmentsOf [Segments [], Context None None,
         HeaderObj [''Content-Type'' \<mapsto> ''application/xml''], Context None (Some 2)]
        \<lparr>segments = 0, ctx = 3\<rparr> = []"
  "baseOf [Segments [], Context None None,
         HeaderObj [''Content-Type'' \<mapsto> ''application/xml''], Context None (Some 2)]
        \<lparr>segments = 0, ctx = 3\<rparr> = None"
  "headersOf [Segments [], Context None None,
         HeaderObj [''Content-Type'' \<mapsto> ''application/xml''], Context None (Some 2)]
        \<lparr>segments = 0, ctx = 3\<rparr> = [''Content-Type'' \<mapsto> ''application/xml'']"
  by (simp_all add: segmentsOf_def baseOf_def headersOf_def readSegments_def readBase_def
        readHeaders_def readHeadersRef_def cellAt_def spread_def)

theorem verb_headers_sent_witness:
  "callHeaders [Segments [], Context None None] \<lparr>segments = 0, ctx = 1\<rparr>
     (Some [''Content-Type'' \<mapsto> ''application/xml'']) =
   Inr ([Segments [], Context None None,
         HeaderObj [''Content-Type'' \<mapsto> ''application/xml''], Context None (Some 2)],
        \<lparr>segments = 0, ctx = 3\<rparr>) \<and>
   headersOf [Segments [], Context None None,
         HeaderObj [''Content-Type'' \<mapsto> ''application/xml''], Context None (Some 2)]
        \<lparr>segments = 0, ctx = 3\<rparr> ''Content-Type'' = Some ''application/xml'' \<and>
   (\<exists>config.
      verbRequest examplePlatform
        (newFactory \<lparr>onRequest = None, onResponse = None\<rparr> (echoHeader ''Content-Type'')
           ''https://api.example.com'' [''Content-Type'' \<mapsto> ''application/json''])
        [Segments [], Context None None,
         HeaderObj [''Content-Type'' \<mapsto> ''application/xml''], Context None (Some 2)]
        \<lparr>segments = 0, ctx = 3\<rparr> ''post''
        \<lparr>optQuery = None, optBody = JNull,
         optHeaders = Some [''Content-Type'' \<mapsto> ''text/plain'']\<rparr> = Inr config \<and>
      headers config ''Content-Type'' = Some ''text/plain'') \<and>
   callVerb examplePlatform
     (newFactory \<lparr>onRequest = None, onResponse = None\<rparr> (echoHeader ''Content-Type'')
        ''https://api.example.com'' [''Content-Type'' \<mapsto> ''application/json''])
     [Segments [], Context None None,
      HeaderObj [''Content-Type'' \<mapsto> ''application/xml''], Context None (Some 2)]
     \<lparr>segments = 0, ctx = 3\<rparr> ''post''
     \<lparr>optQuery = None, optBody = JNull,
      optHeaders = Some [''Content-Type'' \<mapsto> ''text/plain'']\<rparr> =
   Inr (Built \<lparr>data = JStr ''text/plain'', errors = None\<rparr>) \<and>
   callVerb examplePlatform
     (newFactory \<lparr>onRequest = Some requestInterceptor, onResponse = None\<rparr>
        (echoHeader ''Content-Type'')
        ''https://api.example.com'' [''Content-Type'' \<mapsto> ''application/json''])
     [Segments [], Context None None,
      HeaderObj [''Content-Type'' \<mapsto> ''application/xml''], Context None (Some 2)]
     \<lparr>segments = 0, ctx = 3\<rparr> ''post''
     \<lparr>optQuery = None, optBody = JNull,
      optHeaders = Some [''Content-Type'' \<mapsto> ''text/plain'']\<rparr> =
   Inr (Built \<lparr>data = JStr ''text/plain'', errors = None\<rparr>)"
proof -
  let ?store = "[Segments [], Context None None]"
  let ?root = "\<lparr>segments = 0, ctx = 1\<rparr>"
  let ?new = "Some [''Content-Type'' \<mapsto> ''application/xml'']"
  let ?h = "[Segments [], Context None None,
         HeaderObj [''Content-Type'' \<mapsto> ''application/xml''], Context None (Some 2)]"
  let ?q = "\<lparr>segments = 0, ctx = 3\<rparr>"
  let ?ic = "\<lparr>onRequest = None, onResponse = None\<rparr>"
  let ?hooks = "\<lparr>onRequest = Some requestInterceptor, onResponse = None\<rparr>"
  let ?echo = "echoHeader ''Content-Type''"
  let ?hs = "[''Content-Type'' \<mapsto> ''application/json'']"
  let ?f = "newFactory ?ic ?echo ''https://api.example.com'' ?hs"
  let ?g = "newFactory ?hooks ?echo ''https://api.example.com'' ?hs"
  let ?opts = "\<lparr>optQuery = None, optBody = JNull,
         optHeaders = Some [''Content-Type'' \<mapsto> ''text/plain'']\<rparr>"
  let ?merged = "?hs ++ [''Content-Type'' \<mapsto> ''application/xml''] ++
                 [''Content-Type'' \<mapsto> ''text/plain'']"
  let ?config = "\<lparr>url = Some ''https://api.example.com/'', httpMethod = toUpperCase ''post'',
                  reqData = JNull, headers = ?merged, timeout = None\<rparr>"
  let ?hooked = "?config\<lparr>headers := ?merged ++ [''X-Request-ID'' \<mapsto> ''12345'']\<rparr>"
  note c = headers_example_store
  from verb_headers_sent [where h = ?store and p = ?root and new = ?new and h' = ?h and q = ?q,
          THEN conjunct2, THEN conjunct1, rule_format, OF conjI, OF wellFormed_root c]
  obtain m where "?new = Some m" and "headersOf ?h ?q = headersOf ?store ?root ++ m"
    by blast
  then have hq: "headersOf ?h ?q = headersOf ?store ?root ++ [''Content-Type'' \<mapsto> ''application/xml'']"
    by simp
  have hq': "headersOf ?h ?q ''Content-Type'' = Some ''application/xml''"
    unfolding hq by simp
  have v: "verbRequest examplePlatform ?f ?h ?q ''post'' ?opts = Inr ?config"
    unfolding verbRequest_view headers_example_view
    by (simp add: build_def spread_def examplePlatform_def newFactory_def)
  have w: "verbRequest examplePlatform ?g ?h ?q ''post'' ?opts = Inr ?config"
    unfolding verbRequest_view headers_example_view
    by (simp add: build_def spread_def examplePlatform_def newFactory_def)
  from verb_headers_sent [where plat = examplePlatform and f = ?f and h = ?h and p = ?q
         and verb = "''post''" and options = ?opts and config = ?config, THEN conjunct1] v
  have ct: "headers ?config ''Content-Type'' = Some ''text/plain''"
    by (simp add: spread_def)
  have e: "?echo (?config\<lparr>timeout := Some 30000\<rparr>) =
             Inr \<lparr>respData = Some \<lparr>bodyData = JStr ''text/plain'', bodyErrors = None\<rparr>,
                  respStatus = 200\<rparr>"
    by (simp add: echoHeader_def)
  have 3: "callVerb examplePlatform ?f ?h ?q ''post'' ?opts =
             Inr (Built \<lparr>data = JStr ''text/plain'', errors = None\<rparr>)"
  proof -
    have p: "httpClient ?f = makeRequest ?ic ?echo \<and>
             verbRequest examplePlatform ?f ?h ?q ''post'' ?opts = Inr ?config \<and>
             url ?config \<noteq> Some [] \<and> onRequest ?ic = None"
      using v by (simp add: newFactory_def)
    from verb_headers_sent [where plat = examplePlatform and f = ?f and h = ?h and p = ?q
         and verb = "''post''" and options = ?opts and config = ?config and ic = ?ic
         and transport = ?echo,
         THEN conjunct2, THEN conjunct2, THEN conjunct1, rule_format, OF p, THEN conjunct2]
    show ?thesis
      unfolding e by (simp add: makeRequest_def tryRequest_def)
  qed
  have e': "?echo (?hooked\<lparr>timeout := Some 30000\<rparr>) =
             Inr \<lparr>respData = Some \<lparr>bodyData = JStr ''text/plain'', bodyErrors = None\<rparr>,
                  respStatus = 200\<rparr>"
    by (simp add: echoHeader_def)
  have 4: "callVerb examplePlatform ?g ?h ?q ''post'' ?opts =
             Inr (Built \<lparr>data = JStr ''text/plain'', errors = None\<rparr>)"
  proof -
    have p: "httpClient ?g = makeRequest ?hooks ?echo \<and>
             verbRequest examplePlatform ?g ?h ?q ''post'' ?opts = Inr ?config \<and>
             url ?config \<noteq> Some [] \<and> onRequest ?hooks = Some requestInterceptor \<and>
             requestInterceptor ?config = Inr (Some ?hooked)"
      using w by (simp add: newFactory_def requestInterceptor_def)
    have t: "(if timeout ?hooked = None \<or> timeout ?hooked = Some 0
              then ?hooked\<lparr>timeout := Some 30000\<rparr> else ?hooked) = ?hooked\<lparr>timeout := Some 30000\<rparr>"
      by simp
    from verb_headers_sent [where plat = examplePlatform and f = ?g and h = ?h and p = ?q
         and verb = "''post''" and options = ?opts and config = ?config and ic = ?hooks
         and transport = ?echo and hook = requestInterceptor and hooked = ?hooked,
         THEN conjunct2, THEN conjunct2, THEN conjunct2, rule_format, OF p]
    show ?thesis
      unfolding t e' by (simp add: makeRequest_def tryRequest_def requestInterceptor_def)
  qed
  from c hq' v ct 3 4 show ?thesis
    by (intro conjI exI [of _ ?config]) (simp_all only: simp_thms)
qed

text \<open>
  Claim C7 as stated fails: with the request hook of the test \<open>should apply request
  interceptor\<close>, the call \<open>rest.users.get()\<close> sends the transport the header
  \<open>X-Request-ID: 12345\<close>, which is in none of the three layers of the union.
\<close>

theorem verb_headers_request_hook_counterexample:
  "callVerb examplePlatform
     (newFactory \<lparr>onRequest = Some requestInterceptor, onResponse = None\<rparr>
        (echoHeader ''X-Request-ID'') ''https://api.example.com'' Map.empty)
     [Segments [], Context None None, Segments [''users'']] \<lparr>segments = 2, ctx = 1\<rparr> ''get''
     \<lparr>optQuery = None, optBody = JUndefined, optHeaders = None\<rparr> =
   Inr (Built \<lparr>data = JStr ''12345'', errors = None\<rparr>) \<and>
   (factoryHeaders
      (newFactory \<lparr>onRequest = Some requestInterceptor, onResponse = None\<rparr>
         (echoHeader ''X-Request-ID'') ''https://api.example.com'' Map.empty) ++
    headersOf [Segments [], Context None None, Segments [''users'']] \<lparr>segments = 2, ctx = 1\<rparr> ++
    spread (optHeaders \<lparr>optQuery = None, optBody = JUndefined, optHeaders = None\<rparr>))
     ''X-Request-ID'' = None"
proof -
  have "verbRequest examplePlatform
     (newFactory \<lparr>onRequest = Some requestInterceptor, onResponse = None\<rparr>
        (echoHeader ''X-Request-ID'') ''https://api.example.com'' Map.empty)
     [Segments [], Context None None, Segments [''users'']] \<lparr>segments = 2, ctx = 1\<rparr> ''get''
     \<lparr>optQuery = None, optBody = JUndefined, optHeaders = None\<rparr> =
     Inr \<lparr>url = Some ''https://api.example.com/users'', httpMethod = toUpperCase ''get'',
          reqData = JUndefined, headers = Map.empty, timeout = None\<rparr>"
    by (simp add: verbRequest_def build_def spread_def examplePlatform_def newFactory_def
          readBase_def readSegments_def readHeaders_def readHeadersRef_def cellAt_def)
  then show ?thesis
    by (simp add: callVerb_def newFactory_def makeRequest_def tryRequest_def
          requestInterceptor_def echoHeader_def headersOf_def readHeaders_def
          readHeadersRef_def cellAt_def spread_def)
qed

lemma base_headers_not_verbs: "\<not> isHttpMethod ''base''" "\<not> isHttpMethod ''headers''"
  by code_simp+

lemma verb_key_examples:
  "isHttpMethod ''get''" "isHttpMethod ''GET''" "isHttpMethod ''Delete''" "\<not> isHttpMethod ''posts''"
  by code_simp+

lemma isHttpMethod_iff:
  "isHttpMethod key \<longleftrightarrow> toLowerCase key \<in> {''get'', ''post'', ''put'', ''patch'', ''delete''}"
  by (simp add: isHttpMethod_def HTTP_METHODS_def)

text \<open>
  Claim C2, as amended. A key yields the terminal function of an HTTP verb exactly when
  its lower-cased form is one of \<open>get\<close>, \<open>post\<close>, \<open>put\<close>, \<open>patch\<close>, \<open>delete\<close>
  (so \<open>GET\<close> and \<open>Delete\<close> are verbs too), and the request then has the upper-cased key
  as method; every key other than \<open>base\<close> and \<open>headers\<close> whose lower-cased form is
  none of the five yields a proxy with that key appended as a new path segment; and
  \<open>base\<close> and \<open>headers\<close> yield the two configuration functions.
\<close>

theorem rest_verb_keys:
  "(snd (restGet h p key) = VerbFn key \<longleftrightarrow>
      toLowerCase key \<in> {''get'', ''post'', ''put'', ''patch'', ''delete''}) \<and>
   (toLowerCase key \<in> {''get'', ''post'', ''put'', ''patch'', ''delete''} \<longrightarrow>
      restGet h p key = (h, VerbFn key) \<and>
      (\<forall>plat f options config.
         verbRequest plat f h p key options = Inr config \<longrightarrow> httpMethod config = toUpperCase key)) \<and>
   (key \<noteq> ''base'' \<and> key \<noteq> ''headers'' \<and>
    toLowerCase key \<notin> {''get'', ''post'', ''put'', ''patch'', ''delete''} \<longrightarrow>
      restGet h p key =
        (h @ [Segments (segmentsOf h p @ [key])], PathProxy \<lparr>segments = length h, ctx = ctx p\<rparr>)) \<and>
   restGet h p ''base'' = (h, BaseFn) \<and> restGet h p ''headers'' = (h, HeadersFn)"
proof (intro conjI impI allI)
  show "snd (restGet h p key) = VerbFn key \<longleftrightarrow>
      toLowerCase key \<in> {''get'', ''post'', ''put'', ''patch'', ''delete''}"
  proof -
    have "snd (restGet h p key) = VerbFn key \<longleftrightarrow> isHttpMethod key"
      using base_headers_not_verbs by (auto simp: restGet_def alloc_def)
    then show ?thesis by (simp only: isHttpMethod_iff)
  qed
next
  assume "toLowerCase key \<in> {''get'', ''post'', ''put'', ''patch'', ''delete''}"
  then have v: "isHttpMethod key" by (simp only: isHttpMethod_iff)
  with base_headers_not_verbs have "key \<noteq> ''base''" "key \<noteq> ''headers''" by auto
  with v show "restGet h p key = (h, VerbFn key)" by (simp add: restGet_def)
next
  fix plat f options config
  assume "verbRequest plat f h p key options = Inr config"
  then show "httpMethod config = toUpperCase key"
    by (auto simp: verbRequest_def split: sum.splits)
next
  assume "key \<noteq> ''base'' \<and> key \<noteq> ''headers'' \<and>
    toLowerCase key \<notin> {''get'', ''post'', ''put'', ''patch'', ''delete''}"
  then show "restGet h p key =
        (h @ [Segments (segmentsOf h p @ [key])], PathProxy \<lparr>segments = length h, ctx = ctx p\<rparr>)"
    by (intro restGet_path) (simp_all only: isHttpMethod_iff simp_thms)
next
  show "restGet h p ''base'' = (h, BaseFn)" by (simp add: restGet_def)
next
  show "restGet h p ''headers'' = (h, HeadersFn)" by (simp add: restGet_def)
qed

theorem rest_verb_keys_witness:
  "restGet [Segments [], Context None None, Segments [''users'']] \<lparr>segments = 2, ctx = 1\<rparr> ''get'' =
     ([Segments [], Context None None, Segments [''users'']], VerbFn ''get'') \<and>
   restGet [Segments [], Context None None, Segments [''users'']] \<lparr>segments = 2, ctx = 1\<rparr> ''Delete'' =
     ([Segments [], Context None None, Segments [''users'']], VerbFn ''Delete'') \<and>
   restGet [Segments [], Context None None, Segments [''users'']] \<lparr>segments = 2, ctx = 1\<rparr> ''posts'' =
     ([Segments [], Context None None, Segments [''users''], Segments [''users'', ''posts'']],
      PathProxy \<lparr>segments = 3, ctx = 1\<rparr>)"
proof -
  let ?store = "[Segments [], Context None None, Segments [''users'']]"
  let ?users = "\<lparr>segments = 2, ctx = 1\<rparr>"
  note t = rest_verb_keys [of ?store ?users]
  have 1: "restGet ?store ?users ''get'' = (?store, VerbFn ''get'')"
    using t [of "''get''", THEN conjunct2, THEN conjunct1] verb_key_examples(1)
    by (simp only: isHttpMethod_iff simp_thms)
  have 2: "restGet ?store ?users ''Delete'' = (?store, VerbFn ''Delete'')"
    using t [of "''Delete''", THEN conjunct2, THEN conjunct1] verb_key_examples(3)
    by (simp only: isHttpMethod_iff simp_thms)
  have 3: "restGet ?store ?users ''posts'' =
     (?store @ [Segments [''users'', ''posts'']], PathProxy \<lparr>segments = 3, ctx = 1\<rparr>)"
  proof -
    have "''posts'' \<noteq> ''base'' \<and> ''posts'' \<noteq> ''headers'' \<and>
          toLowerCase ''posts'' \<notin> {''get'', ''post'', ''put'', ''patch'', ''delete''}"
      using verb_key_examples(4) by (simp add: isHttpMethod_iff)
    from t [of "''posts''", THEN conjunct2, THEN conjunct2, THEN conjunct1, rule_format, OF this]
    show ?thesis by (simp add: segmentsOf_def readSegments_def cellAt_def)
  qed
  from 1 2 3 show ?thesis by simp
qed

text \<open>
  Claim C2 as stated fails: \<open>.GET\<close> on the chain \<open>rest.users\<close> yields the verb
  function, and no proxy whose segments end with \<open>"GET"\<close>.
\<close>

theorem rest_uppercase_GET_counterexample:
  "restGet [Segments [], Context None None, Segments [''users'']] \<lparr>segments = 2, ctx = 1\<rparr> ''GET'' =
     ([Segments [], Context None None, Segments [''users'']], VerbFn ''GET'') \<and>
   restGet [Segments [], Context None None, Segments [''users'']] \<lparr>segments = 2, ctx = 1\<rparr> ''GET'' \<noteq>
     ([Segments [], Context None None, Segments [''users''], Segments [''users'', ''GET'']],
      PathProxy \<lparr>segments = 3, ctx = 1\<rparr>)"
  using verb_key_examples(2) by (simp add: restGet_def)

section \<open>Properties of the GraphQL proxy\<close>

lemma trim_empty: "trim [] = []"
  by (simp add: trim_def)

lemma templateParts_execute:
  "templateParts op fld args [] =
     (if args \<noteq> []
      then [operationName op @ '' { '' @ fld @ '' ('', '')  }'']
      else [operationName op @ '' { '' @ fld @ '' '', ''  }''])"
  by (simp add: templateParts_def trim_empty)

lemma buildGraphQLOperation_calls:
  assumes "buildGraphQLOperation buildQuery op fld args sel = Inr result"
  shows "buildQuery (templateParts op fld args sel) args = Inr result"
  using assms
  by (auto simp: buildGraphQLOperation_def split: if_splits sum.splits)

text \<open>
  Claim C3, as amended. For every operation kind, field and arguments, the template
  built with the empty selection (the one \<open>execute()\<close> uses) has no pair of braces in
  its second part: with arguments it is \<open>["<op> { <field> (", ")  }"]\<close>, without
  \<open>["<op> { <field> ", "  }"]\<close>. \<open>createQueryBuilder\<close> calls \<open>buildQuery\<close> on that
  template and the arguments, and \<open>execute()\<close> sends the query so built.
\<close>

theorem execute_template:
  "templateParts op fld args [] =
     (if args \<noteq> []
      then [operationName op @ '' { '' @ fld @ '' ('', '')  }'']
      else [operationName op @ '' { '' @ fld @ '' '', ''  }'']) \<and>
   (createQueryBuilder buildQuery op fld args c = Inr b \<longrightarrow>
      buildQuery (templateParts op fld args []) args = Inr (built b) \<and>
      callExecute f h b =
        executeGraphQLQuery f h (query (built b)) (variables (built b)) c)"
proof (intro conjI impI)
  show "templateParts op fld args [] =
     (if args \<noteq> []
      then [operationName op @ '' { '' @ fld @ '' ('', '')  }'']
      else [operationName op @ '' { '' @ fld @ '' '', ''  }''])"
    by (rule templateParts_execute)
next
  assume a: "createQueryBuilder buildQuery op fld args c = Inr b"
  then obtain r where r: "buildGraphQLOperation buildQuery op fld args [] = Inr r"
    and b: "b = \<lparr>operation = op, field = fld, argsObj = args, builderCtx = c, built = r\<rparr>"
    by (auto simp: createQueryBuilder_def split: sum.splits)
  from buildGraphQLOperation_calls [OF r] b
  show "buildQuery (templateParts op fld args []) args = Inr (built b)" by simp
  from b show "callExecute f h b =
        executeGraphQLQuery f h (query (built b)) (variables (built b)) c"
    by (simp add: callExecute_def)
qed

theorem execute_template_witness:
  "templateParts Query ''user'' [(''id'', JNum ''123'')] [] = [''query { user ('', '')  }''] \<and>
   templateParts Subscription ''userUpdated'' [] [] = [''subscription { userUpdated '', ''  }''] \<and>
   operationGet
     (\<lambda>parts args. Inr \<lparr>query = JStr (joinWith ''$'' parts), variables = JObj args\<rparr>)
     Query 0 ''user'' =
   Inr \<lparr>operation = Query, field = ''user'', argsObj = [], builderCtx = 0,
        built = \<lparr>query = JStr ''query { user $  }'', variables = JObj []\<rparr>\<rparr> \<and>
   builderApply
     (\<lambda>parts args. Inr \<lparr>query = JStr (joinWith ''$'' parts), variables = JObj args\<rparr>)
     [Context None None]
     \<lparr>operation = Query, field = ''user'', argsObj = [], builderCtx = 0,
      built = \<lparr>query = JStr ''query { user $  }'', variables = JObj []\<rparr>\<rparr>
     (JObj [(''id'', JNum ''123'')]) =
   Inr ([Context None None],
        \<lparr>operation = Query, field = ''user'', argsObj = [(''id'', JNum ''123'')], builderCtx = 0,
         built = \<lparr>query = JStr ''query { user ($)  }'',
                  variables = JObj [(''id'', JNum ''123'')]\<rparr>\<rparr>) \<and>
   callExecute
     \<lparr>httpClient = (\<lambda>config. Inr (Hooked (reqData config))),
      baseUrl = ''https://api.example.com/graphql'', factoryHeaders = Map.empty\<rparr>
     [Context None None]
     \<lparr>operation = Query, field = ''user'', argsObj = [(''id'', JNum ''123'')], builderCtx = 0,
      built = \<lparr>query = JStr ''query { user ($)  }'',
               variables = JObj [(''id'', JNum ''123'')]\<rparr>\<rparr> =
   Inr (Hooked (JObj [(''query'', JStr ''query { user ($)  }''),
                      (''variables'', JObj [(''id'', JNum ''123'')])]))"
proof -
  let ?bq = "\<lambda>parts args. (Inr \<lparr>query = JStr (joinWith ''$'' parts), variables = JObj args\<rparr>
                            :: thrown + buildResult)"
  let ?f = "\<lparr>httpClient = (\<lambda>config. Inr (Hooked (reqData config))),
             baseUrl = ''https://api.example.com/graphql'', factoryHeaders = Map.empty\<rparr>"
  let ?b = "\<lparr>operation = Query, field = ''user'', argsObj = [(''id'', JNum ''123'')], builderCtx = 0,
        built = \<lparr>query = JStr ''query { user ($)  }'', variables = JObj [(''id'', JNum ''123'')]\<rparr>\<rparr>"
  let ?fresh = "\<lparr>operation = Query, field = ''user'', argsObj = [], builderCtx = 0,
        built = \<lparr>query = JStr ''query { user $  }'', variables = JObj []\<rparr>\<rparr>"
  have t: "templateParts Query ''user'' [(''id'', JNum ''123'')] [] = [''query { user ('', '')  }'']"
    using execute_template [of Query "''user''" "[(''id'', JNum ''123'')]", THEN conjunct1] by simp
  have t0: "templateParts Query ''user'' [] [] = [''query { user '', ''  }'']"
    using execute_template [of Query "''user''" "[]", THEN conjunct1] by simp
  have s: "templateParts Subscription ''userUpdated'' [] [] = [''subscription { userUpdated '', ''  }'']"
    using execute_template [of Subscription "''userUpdated''" "[]", THEN conjunct1] by simp
  have c0: "createQueryBuilder ?bq Query ''user'' [] 0 = Inr ?fresh"
    by (simp add: createQueryBuilder_def buildGraphQLOperation_def t0 isNonEmptyString_def)
  have c: "createQueryBuilder ?bq Query ''user'' [(''id'', JNum ''123'')] 0 = Inr ?b"
    by (simp add: createQueryBuilder_def buildGraphQLOperation_def t isNonEmptyString_def)
  have a: "builderApply ?bq [Context None None] ?fresh (JObj [(''id'', JNum ''123'')]) =
             Inr ([Context None None], ?b)"
    by (simp add: builderApply_def validateGraphQLArgs_def c)
  from execute_template [of Query "''user''" "[(''id'', JNum ''123'')]" ?bq 0 ?b ?f "[Context None None]",
         THEN conjunct2] c
  have e: "callExecute ?f [Context None None] ?b =
             executeGraphQLQuery ?f [Context None None] (query (built ?b)) (variables (built ?b)) 0"
    by blast
  have x: "callExecute ?f [Context None None] ?b =
             Inr (Hooked (JObj [(''query'', JStr ''query { user ($)  }''),
                                (''variables'', JObj [(''id'', JNum ''123'')])]))"
    unfolding e
    by (simp add: executeGraphQLQuery_def graphQLRequest_def isNonEmptyString_def jsOr_def)
  from t s c0 a x show ?thesis by (simp add: operationGet_def)
qed

text \<open>
  Claim C3 as stated fails: for \<open>query.user({id: 123}).execute()\<close> the template is
  \<open>["query { user (", ")  }"]\<close>, not \<open>["query { user (", ") {  } }"]\<close>.
\<close>

theorem execute_template_counterexample:
  "templateParts Query ''user'' [(''id'', JNum ''123'')] [] = [''query { user ('', '')  }''] \<and>
   executeTemplateBySpec Query ''user'' [(''id'', JNum ''123'')] = [''query { user ('', '') {  } }''] \<and>
   templateParts Query ''user'' [(''id'', JNum ''123'')] [] \<noteq>
     executeTemplateBySpec Query ''user'' [(''id'', JNum ''123'')]"
  by (simp add: templateParts_def trim_empty executeTemplateBySpec_def)

text \<open>
  Claim C9, as amended. On the query builder, property access returns a value exactly
  for the five names \<open>select\<close>, \<open>execute\<close>, \<open>then\<close>, \<open>base\<close>, \<open>headers\<close>, and for
  every other string name it throws the error \<open>Invalid property "<name>". Available
  methods: select(fields), execute(), base(url), headers(obj)\<close>, which lists four
  names.
\<close>

theorem builderGet_names:
  "((\<exists>m. builderGet name = Inr m) \<longleftrightarrow>
      name \<in> {''select'', ''execute'', ''then'', ''base'', ''headers''}) \<and>
   (name \<notin> {''select'', ''execute'', ''then'', ''base'', ''headers''} \<longrightarrow>
      builderGet name =
        Inl (newError (''Invalid property '' @ doubleQuote @ name @ doubleQuote @
               ''. Available methods: select(fields), execute(), base(url), headers(obj)'')))"
  by (simp add: builderGet_def)

theorem builderGet_names_witness:
  "builderGet ''invalidProperty'' =
     Inl (newError (''Invalid property '' @ doubleQuote @ ''invalidProperty'' @ doubleQuote @
            ''. Available methods: select(fields), execute(), base(url), headers(obj)'')) \<and>
   (\<exists>m. builderGet ''select'' = Inr m)"
  using builderGet_names [of "''invalidProperty''"] builderGet_names [of "''select''"]
  by simp

text \<open>Awaiting the builder runs the same request as \<open>execute()\<close>.\<close>

lemma callThen_executes: "callThen f h b = callExecute f h b"
  by (simp add: callThen_def callExecute_def)

text \<open>
  Claim C9 as stated fails: \<open>then\<close> is none of the four names, and the access returns
  a function (the builder is thenable).
\<close>

theorem builderGet_then_counterexample:
  "builderGet ''then'' = Inr ThenFn"
  by (simp add: builderGet_def)

section \<open>Immutability of chain state\<close>













end
